theory Spec2Isabelle
  imports Complex_Main
begin

section \<open>The match engine of src/eval/eval.py\<close>

text \<open>
  The module drives chess games between two agents. It owns the retry loop that asks an
  agent for a move (\<^verbatim>\<open>get_legal_move\<close>), the transcript it builds, the counters of
  one game (\<^verbatim>\<open>play_game\<close>), the random opening (\<^verbatim>\<open>initialize_game_with_random_moves\<close>)
  and the scoring of a finished game (\<^verbatim>\<open>record_results\<close>).

  The chess rules (\<^verbatim>\<open>chess.Board\<close>) and the agents (\<^verbatim>\<open>Player\<close>) are not part of the
  module: the functions below take them as parameters. Python's mutation of the board,
  of an agent and of files is written as explicit state passing, an uncaught exception
  as the left summand of a sum. Output to the terminal (\<^verbatim>\<open>print\<close>) and the snapshot file
  \<^verbatim>\<open>tmp/game.txt\<close> are not modelled: the module never reads them back. Nor are
  \<^verbatim>\<open>initialize_game_with_opening\<close>, which \<^verbatim>\<open>play_game\<close> does not call, and the
  closing of the engines after the last game.
\<close>

subsection \<open>The collaborators\<close>

text \<open>
  The methods of \<^verbatim>\<open>chess.Board\<close> that the module calls, over a board type \<open>'b\<close> and a
  move type \<open>'m\<close>. \<open>board_parse_san b s = None\<close> stands for \<^verbatim>\<open>board.parse_san(s)\<close>
  raising; \<open>board_legal_moves\<close> is \<^verbatim>\<open>list(board.legal_moves)\<close>; \<open>board_new\<close> is
  \<^verbatim>\<open>chess.Board()\<close>.
\<close>

record ('b, 'm) rules =
  board_new :: "'b"
  board_reset :: "'b \<Rightarrow> 'b"
  board_legal_moves :: "'b \<Rightarrow> 'm list"
  board_parse_san :: "'b \<Rightarrow> string \<Rightarrow> 'm option"
  board_san :: "'b \<Rightarrow> 'm \<Rightarrow> string"
  board_push :: "'m \<Rightarrow> 'b \<Rightarrow> 'b"
  board_is_game_over :: "'b \<Rightarrow> bool"
  board_result :: "'b \<Rightarrow> string"
  board_fullmove_number :: "'b \<Rightarrow> int"

text \<open>
  A \<^verbatim>\<open>Player\<close> (the classes live in \<^verbatim>\<open>src/eval/players.py\<close>; the module uses two of
  their methods): \<^verbatim>\<open>get_move(board, game_state, temperature)\<close> returns text or
  \<^verbatim>\<open>None\<close> and may change the agent (its state has type \<open>'s\<close>); \<^verbatim>\<open>get_config()\<close>
  returns a dict, here a map from keys to the text of their values. The temperature is
  a float in Python and a rational here.
\<close>

record ('b, 's) player =
  get_move :: "'b \<Rightarrow> string \<Rightarrow> rat \<Rightarrow> 's \<Rightarrow> string option \<times> 's"
  get_config :: "string \<rightharpoonup> string"

text \<open>The exceptions that leave the module uncaught.\<close>

datatype error =
  KeyError string
  | InitFailed

subsection \<open>Resolving one turn: \<^verbatim>\<open>get_legal_move\<close>\<close>

record 'm LegalMoveResponse =
  move_san :: "string option"
  move_uci :: "'m option"
  attempts :: int
  is_resignation :: bool
  is_illegal_move :: bool

text \<open>
  \<^verbatim>\<open>board.parse_san(move_san)\<close> inside \<^verbatim>\<open>try\<close>: the agent may have returned
  \<^verbatim>\<open>None\<close>, on which the parser raises as it does on unreadable text.
\<close>

definition try_parse_san :: "('b, 'm) rules \<Rightarrow> 'b \<Rightarrow> string option \<Rightarrow> 'm option" where
  "try_parse_san orc b t = (case t of None \<Rightarrow> None | Some s \<Rightarrow> board_parse_san orc b s)"

text \<open>\<^verbatim>\<open>s.startswith(" ")\<close>.\<close>

definition startswith_space :: "string \<Rightarrow> bool" where
  "startswith_space s = (case s of [] \<Rightarrow> False | c # _ \<Rightarrow> c = CHR '' '')"

text \<open>The urgency passed to the agent: \<^verbatim>\<open>min(((attempt / max_attempts) * 1) + 0.001, 0.5)\<close>.\<close>

definition temperature :: "int \<Rightarrow> int \<Rightarrow> rat" where
  "temperature attempt max_attempts =
     min (((of_int attempt / of_int max_attempts) * 1) + 1 / 1000) (1 / 2)"

text \<open>What the \<^verbatim>\<open>except\<close> branch appends to \<^verbatim>\<open>gpt-3.5-turbo-instruct-illegal-moves.txt\<close>.\<close>

definition diagnostic_entry :: "string \<Rightarrow> string option \<Rightarrow> string" where
  "diagnostic_entry game_state t =
     game_state @ [CHR 0x0A] @ (case t of None \<Rightarrow> ''None'' | Some s \<Rightarrow> s) @ [CHR 0x0A]"

text \<open>
  The body of \<^verbatim>\<open>for attempt in range(max_attempts)\<close>, from index \<open>attempt\<close> on, with
  the agent's state \<open>ps\<close> and the diagnostic file \<open>dg\<close>. The lookup
  \<^verbatim>\<open>player.get_config()["model"]\<close> raises \<^verbatim>\<open>KeyError\<close> inside the handler when the
  key is missing, and nothing catches it.
\<close>

function attempt_loop ::
  "('b, 'm) rules \<Rightarrow> ('b, 's) player \<Rightarrow> 'b \<Rightarrow> string \<Rightarrow> int \<Rightarrow> int \<Rightarrow> 's \<Rightarrow> string list
   \<Rightarrow> error + ('m LegalMoveResponse \<times> 's \<times> string list)" where
  "attempt_loop orc pl b game_state max_attempts attempt ps dg =
     (if attempt < max_attempts then
        (case get_move pl b game_state (temperature attempt max_attempts) ps of
           (t, ps') \<Rightarrow>
             if t = Some ''1-0'' \<or> t = Some ''0-1'' \<or> t = Some ''1/2-1/2'' then
               Inr (\<lparr>move_san = None, move_uci = None, attempts = attempt,
                      is_resignation = True, is_illegal_move = False\<rparr>, ps', dg)
             else
               (case (t, try_parse_san orc b t) of
                  (Some s, Some m) \<Rightarrow>
                    if m \<in> set (board_legal_moves orc b) then
                      Inr (\<lparr>move_san = Some (if startswith_space s then s else CHR '' '' # s),
                            move_uci = Some m, attempts = attempt,
                            is_resignation = False, is_illegal_move = False\<rparr>, ps', dg)
                    else attempt_loop orc pl b game_state max_attempts (attempt + 1) ps' dg
                | _ \<Rightarrow>
                    (case get_config pl ''model'' of
                       None \<Rightarrow> Inl (KeyError ''model'')
                     | Some model \<Rightarrow>
                         attempt_loop orc pl b game_state max_attempts (attempt + 1) ps'
                           (if model = ''gpt-3.5-turbo-instruct''
                            then dg @ [diagnostic_entry game_state t] else dg))))
      else
        Inr (\<lparr>move_san = None, move_uci = None, attempts = max_attempts,
               is_resignation = False, is_illegal_move = True\<rparr>, ps, dg))"
  by pat_completeness auto
termination
  by (relation "measure (\<lambda>(orc, pl, b, game_state, max_attempts, attempt, ps, dg).
        nat (max_attempts - attempt))") auto

declare attempt_loop.simps [simp del]

definition get_legal_move ::
  "('b, 'm) rules \<Rightarrow> ('b, 's) player \<Rightarrow> 'b \<Rightarrow> string \<Rightarrow> bool \<Rightarrow> int \<Rightarrow> 's \<Rightarrow> string list
   \<Rightarrow> error + ('m LegalMoveResponse \<times> 's \<times> string list)" where
  "get_legal_move orc pl b game_state player_one max_attempts ps dg =
     attempt_loop orc pl b game_state max_attempts 0 ps dg"

subsection \<open>\<^verbatim>\<open>play_turn\<close>\<close>

text \<open>
  The call returns \<^verbatim>\<open>(game_state, resignation, failed_to_find_legal_move, illegal_moves)\<close>
  and has pushed the move on the board, if there was one; the model returns the board,
  the agent's state and the diagnostic file beside the tuple.
\<close>

definition play_turn ::
  "('b, 'm) rules \<Rightarrow> ('b, 's) player \<Rightarrow> 'b \<Rightarrow> string \<Rightarrow> bool \<Rightarrow> 's \<Rightarrow> string list
   \<Rightarrow> error + ((string \<times> bool \<times> bool \<times> int) \<times> 'b \<times> 's \<times> string list)" where
  "play_turn orc pl b game_state player_one ps dg =
     (case get_legal_move orc pl b game_state player_one 5 ps dg of
        Inl e \<Rightarrow> Inl e
      | Inr (result, ps', dg') \<Rightarrow>
          (let illegal_moves = attempts result;
               resignation = is_resignation result;
               failed_to_find_legal_move = is_illegal_move result
           in if resignation then
                Inr ((game_state, resignation, failed_to_find_legal_move, illegal_moves),
                     b, ps', dg')
              else if failed_to_find_legal_move then
                Inr ((game_state, resignation, failed_to_find_legal_move, illegal_moves),
                     b, ps', dg')
              else
                (case (move_san result, move_uci result) of
                   (Some san, Some uci) \<Rightarrow>
                     Inr ((game_state @ san, resignation, failed_to_find_legal_move,
                           illegal_moves), board_push orc uci b, ps', dg')
                 | _ \<Rightarrow>
                     Inr ((game_state, resignation, failed_to_find_legal_move, illegal_moves),
                          b, ps', dg'))))"

subsection \<open>Text helpers of Python\<close>

text \<open>\<^verbatim>\<open>str(n)\<close> for an integer.\<close>

definition digit_char :: "nat \<Rightarrow> char" where
  "digit_char d = ''0123456789'' ! d"

fun str_nat :: "nat \<Rightarrow> string" where
  "str_nat n = (if n < 10 then [digit_char n] else str_nat (n div 10) @ [digit_char (n mod 10)])"

declare str_nat.simps [simp del]

definition str_int :: "int \<Rightarrow> string" where
  "str_int i = (if i < 0 then CHR ''-'' # str_nat (nat (- i)) else str_nat (nat i))"

text \<open>\<^verbatim>\<open>s.split(c)\<close> with a separator of one character: empty pieces are kept.\<close>

fun split_acc :: "char \<Rightarrow> string \<Rightarrow> string \<Rightarrow> string list" where
  "split_acc c cur [] = [cur]"
| "split_acc c cur (x # xs) =
     (if x = c then cur # split_acc c [] xs else split_acc c (cur @ [x]) xs)"

definition split_sep :: "char \<Rightarrow> string \<Rightarrow> string list" where
  "split_sep c s = split_acc c [] s"

text \<open>
  \<^verbatim>\<open>s.split()\<close>: pieces between runs of whitespace, no empty piece. The whitespace of
  \<^verbatim>\<open>str\<close> among the first 256 code points.
\<close>

definition isspace :: "char \<Rightarrow> bool" where
  "isspace c \<longleftrightarrow> c \<in> set [CHR 0x09, CHR 0x0A, CHR 0x0B, CHR 0x0C, CHR 0x0D,
     CHR 0x1C, CHR 0x1D, CHR 0x1E, CHR 0x1F, CHR 0x20, CHR 0x85, CHR 0xA0]"

fun split_tokens :: "string \<Rightarrow> string \<Rightarrow> string list" where
  "split_tokens cur [] = (if cur = [] then [] else [cur])"
| "split_tokens cur (x # xs) =
     (if isspace x then (if cur = [] then [] else [cur]) @ split_tokens [] xs
      else split_tokens (cur @ [x]) xs)"

definition split_ws :: "string \<Rightarrow> string list" where
  "split_ws s = split_tokens [] s"

subsection \<open>The random opening: \<^verbatim>\<open>initialize_game_with_random_moves\<close>\<close>

text \<open>
  \<^verbatim>\<open>random.choice(moves)\<close> on a non-empty list: the generator is a parameter \<open>rand\<close>
  that steps a state \<open>'r\<close> and hands out a number, which picks the element.
\<close>

definition random_choice :: "('r \<Rightarrow> nat \<times> 'r) \<Rightarrow> 'a list \<Rightarrow> 'r \<Rightarrow> 'a \<times> 'r" where
  "random_choice rand xs r = (case rand r of (k, r') \<Rightarrow> (xs ! (k mod length xs), r'))"

text \<open>
  One pass through the body of \<^verbatim>\<open>for player in range(2)\<close>. The result starts with
  the list \<^verbatim>\<open>moves\<close> the pass computed; when it is empty the pass has done nothing
  else and the loop breaks.
\<close>

definition random_ply ::
  "('b, 'm) rules \<Rightarrow> ('r \<Rightarrow> nat \<times> 'r) \<Rightarrow> int \<Rightarrow> int \<Rightarrow> string \<times> 'b \<times> 'r
   \<Rightarrow> 'm list \<times> string \<times> 'b \<times> 'r" where
  "random_ply orc rand moveIdx player st =
     (case st of (game_state, b, r) \<Rightarrow>
        (let moves = board_legal_moves orc b in
         if moves = [] then (moves, game_state, b, r)
         else
           (case random_choice rand moves r of (move, r') \<Rightarrow>
              (let moveString = board_san orc b move;
                   game_state1 = (if moveIdx > 1 \<or> player = 1 then game_state @ '' ''
                                  else game_state);
                   game_state2 = game_state1 @
                     (if player = 0 then str_int moveIdx @ ''. '' @ moveString
                      else moveString)
               in (moves, game_state2, board_push orc move b, r')))))"

text \<open>\<^verbatim>\<open>for player in range(2)\<close> with its \<^verbatim>\<open>break\<close>.\<close>

definition random_move_pair ::
  "('b, 'm) rules \<Rightarrow> ('r \<Rightarrow> nat \<times> 'r) \<Rightarrow> int \<Rightarrow> string \<times> 'b \<times> 'r
   \<Rightarrow> 'm list \<times> string \<times> 'b \<times> 'r" where
  "random_move_pair orc rand moveIdx st =
     (case random_ply orc rand moveIdx 0 st of
        (moves, st') \<Rightarrow> if moves = [] then (moves, st') else random_ply orc rand moveIdx 1 st')"

text \<open>
  \<^verbatim>\<open>for moveIdx in range(1, randomize_opening_moves + 1)\<close>, from \<open>moveIdx\<close> on, with
  the value of \<^verbatim>\<open>moves\<close> carried along.
\<close>

function random_moves_from ::
  "('b, 'm) rules \<Rightarrow> ('r \<Rightarrow> nat \<times> 'r) \<Rightarrow> int \<Rightarrow> int \<Rightarrow> 'm list \<times> string \<times> 'b \<times> 'r
   \<Rightarrow> 'm list \<times> string \<times> 'b \<times> 'r" where
  "random_moves_from orc rand randomize_opening_moves moveIdx mst =
     (if moveIdx < randomize_opening_moves + 1 then
        (case random_move_pair orc rand moveIdx (snd mst) of
           (moves, st') \<Rightarrow>
             if moves = [] then (moves, st')
             else random_moves_from orc rand randomize_opening_moves (moveIdx + 1) (moves, st'))
      else mst)"
  by pat_completeness auto
termination
  by (relation "measure (\<lambda>(orc, rand, randomize_opening_moves, moveIdx, mst).
        nat (randomize_opening_moves + 1 - moveIdx))") auto

declare random_moves_from.simps [simp del]

definition MAX_INIT_ATTEMPTS :: int where
  "MAX_INIT_ATTEMPTS = 5"

text \<open>
  \<^verbatim>\<open>for attempt in range(MAX_INIT_ATTEMPTS)\<close> with its \<^verbatim>\<open>else\<close>, from index
  \<open>attempt\<close> on. The board is one object: a retry resets the board the failed attempt
  left behind.
\<close>

function init_attempts ::
  "('b, 'm) rules \<Rightarrow> ('r \<Rightarrow> nat \<times> 'r) \<Rightarrow> string \<Rightarrow> int \<Rightarrow> int \<Rightarrow> 'b \<Rightarrow> 'r
   \<Rightarrow> error + ((string \<times> 'b) \<times> 'r)" where
  "init_attempts orc rand initial_game_state randomize_opening_moves attempt b r =
     (if attempt < MAX_INIT_ATTEMPTS then
        (case random_moves_from orc rand randomize_opening_moves 1
                ([], initial_game_state, board_reset orc b, r) of
           (moves, game_state, b', r') \<Rightarrow>
             if moves \<noteq> [] then Inr ((game_state, b'), r')
             else init_attempts orc rand initial_game_state randomize_opening_moves
                    (attempt + 1) b' r')
      else Inl InitFailed)"
  by pat_completeness auto
termination
  by (relation "measure (\<lambda>(orc, rand, initial_game_state, randomize_opening_moves, attempt,
        b, r). nat (MAX_INIT_ATTEMPTS - attempt))") auto

declare init_attempts.simps [simp del]

definition initialize_game_with_random_moves ::
  "('b, 'm) rules \<Rightarrow> ('r \<Rightarrow> nat \<times> 'r) \<Rightarrow> 'b \<Rightarrow> string \<Rightarrow> int \<Rightarrow> 'r
   \<Rightarrow> error + ((string \<times> 'b) \<times> 'r)" where
  "initialize_game_with_random_moves orc rand b initial_game_state randomize_opening_moves r =
     init_attempts orc rand initial_game_state randomize_opening_moves 0 b r"

subsection \<open>One game: the loop of \<^verbatim>\<open>play_game\<close>\<close>

definition NANOGPT :: bool where
  "NANOGPT = True"

definition RUN_FOR_ANALYSIS :: bool where
  "RUN_FOR_ANALYSIS = True"

definition MAX_MOVES :: int where
  "MAX_MOVES = (if NANOGPT then 89 else 1000)"

definition recording_file :: string where
  "recording_file = ''tmp/determine.csv''"

text \<open>
  The local variables of one game, with the two agents' states and the diagnostic file.
\<close>

record ('b, 's1, 's2) game =
  board :: 'b
  game_state :: string
  player_one_illegal_moves :: int
  player_two_illegal_moves :: int
  player_one_legal_moves :: int
  player_two_legal_moves :: int
  player_one_resignation :: bool
  player_two_resignation :: bool
  player_one_failed_to_find_legal_move :: bool
  player_two_failed_to_find_legal_move :: bool
  total_moves :: int
  illegal_moves :: int
  player_one_state :: 's1
  player_two_state :: 's2
  diagnostics :: "string list"

text \<open>
  The top of the loop body, up to the first \<^verbatim>\<open>play_turn\<close>: the round is counted, both
  sides are credited a legal move, the move number goes into the transcript.
\<close>

definition begin_round :: "('b, 'm) rules \<Rightarrow> ('b, 's1, 's2) game \<Rightarrow> ('b, 's1, 's2) game" where
  "begin_round orc g =
     (let current_move_num = str_int (board_fullmove_number orc (board g)) @ ''.''
      in g\<lparr>total_moves := total_moves g + 1,
            player_one_legal_moves := player_one_legal_moves g + 1,
            player_two_legal_moves := player_two_legal_moves g + 1,
            game_state :=
              (if board_fullmove_number orc (board g) \<noteq> 1 then game_state g @ '' ''
               else game_state g) @ current_move_num\<rparr>)"

text \<open>Player one's \<^verbatim>\<open>play_turn\<close> and the two statements that book its cost.\<close>

definition player_one_ply ::
  "('b, 'm) rules \<Rightarrow> ('b, 's1) player \<Rightarrow> ('b, 's1, 's2) game \<Rightarrow> error + ('b, 's1, 's2) game" where
  "player_one_ply orc p1 g =
     (case play_turn orc p1 (board g) (game_state g) True (player_one_state g) (diagnostics g) of
        Inl e \<Rightarrow> Inl e
      | Inr ((gs, resignation, failed, illegal_moves_one), b, ps, dg) \<Rightarrow>
          Inr (g\<lparr>board := b, game_state := gs,
                 player_one_resignation := resignation,
                 player_one_failed_to_find_legal_move := failed,
                 player_one_illegal_moves := player_one_illegal_moves g + illegal_moves_one,
                 player_one_legal_moves :=
                   (if illegal_moves_one \<noteq> 0 then player_one_legal_moves g - 1
                    else player_one_legal_moves g),
                 player_one_state := ps, diagnostics := dg\<rparr>))"

text \<open>The same for player two.\<close>

definition player_two_ply ::
  "('b, 'm) rules \<Rightarrow> ('b, 's2) player \<Rightarrow> ('b, 's1, 's2) game \<Rightarrow> error + ('b, 's1, 's2) game" where
  "player_two_ply orc p2 g =
     (case play_turn orc p2 (board g) (game_state g) False (player_two_state g) (diagnostics g) of
        Inl e \<Rightarrow> Inl e
      | Inr ((gs, resignation, failed, illegal_moves_two), b, ps, dg) \<Rightarrow>
          Inr (g\<lparr>board := b, game_state := gs,
                 player_two_resignation := resignation,
                 player_two_failed_to_find_legal_move := failed,
                 player_two_illegal_moves := player_two_illegal_moves g + illegal_moves_two,
                 player_two_legal_moves :=
                   (if illegal_moves_two \<noteq> 0 then player_two_legal_moves g - 1
                    else player_two_legal_moves g),
                 player_two_state := ps, diagnostics := dg\<rparr>))"

text \<open>
  \<^verbatim>\<open>while not board.is_game_over()\<close> with its three \<^verbatim>\<open>break\<close>s. The loop stops
  because every pass that does not break counts \<^verbatim>\<open>total_moves\<close> up towards
  \<^verbatim>\<open>MAX_MOVES\<close>.
\<close>

function game_loop ::
  "('b, 'm) rules \<Rightarrow> ('b, 's1) player \<Rightarrow> ('b, 's2) player \<Rightarrow> ('b, 's1, 's2) game
   \<Rightarrow> error + ('b, 's1, 's2) game" where
  "game_loop orc p1 p2 g =
     (if board_is_game_over orc (board g) then Inr g
      else
        (case player_one_ply orc p1 (begin_round orc g) of
           Inl e \<Rightarrow> Inl e
         | Inr g1 \<Rightarrow>
             if board_is_game_over orc (board g1) \<or> player_one_resignation g1
                \<or> player_one_failed_to_find_legal_move g1
             then Inr g1
             else
               (case player_two_ply orc p2 g1 of
                  Inl e \<Rightarrow> Inl e
                | Inr g2 \<Rightarrow>
                    if board_is_game_over orc (board g2) \<or> player_two_resignation g2
                       \<or> player_two_failed_to_find_legal_move g2
                    then Inr g2
                    else if total_moves g2 > MAX_MOVES then Inr g2
                    else game_loop orc p1 p2 g2)))"
  by pat_completeness auto
termination
  by (relation "measure (\<lambda>(orc, p1, p2, g). nat (MAX_MOVES + 1 - total_moves g))")
     (auto simp: player_one_ply_def player_two_ply_def begin_round_def Let_def
           split: sum.splits prod.splits)

declare game_loop.simps [simp del]

subsection \<open>Scoring: \<^verbatim>\<open>record_results\<close>\<close>

text \<open>
  A score as Python holds it: the integers of the first two branches, the pieces of
  \<^verbatim>\<open>result.split("-")\<close> (text), and the floats \<^verbatim>\<open>1 / 2\<close> and \<^verbatim>\<open>-1e10\<close>.
\<close>

datatype score = IntScore int | StrScore string | FloatScore rat

text \<open>The row \<^verbatim>\<open>info_dict\<close>, one field for each key.\<close>

record info_dict =
  row_game_id :: string
  row_transcript :: string
  row_result :: string
  row_player_one :: string
  row_player_two :: string
  row_player_one_time :: "string option"
  row_player_two_time :: "string option"
  row_player_one_score :: score
  row_player_two_score :: score
  row_player_one_illegal_moves :: int
  row_player_two_illegal_moves :: int
  row_player_one_legal_moves :: int
  row_player_two_legal_moves :: int
  row_player_one_resignation :: bool
  row_player_two_resignation :: bool
  row_player_one_failed_to_find_legal_move :: bool
  row_player_two_failed_to_find_legal_move :: bool
  row_game_title :: string
  row_number_of_moves :: int
  row_time_taken :: rat
  row_total_moves :: int
  row_illegal_moves :: int

text \<open>
  One side of \<^verbatim>\<open>get_player_titles_and_time\<close>: a configuration with a \<^verbatim>\<open>model\<close> key
  gives the model's name and no time, any other is read as an engine's.
\<close>

definition title_and_time :: "(string \<rightharpoonup> string) \<Rightarrow> error + (string \<times> string option)" where
  "title_and_time config =
     (case config ''model'' of
        Some model \<Rightarrow> Inr (model, None)
      | None \<Rightarrow>
          (case config ''skill_level'' of
             None \<Rightarrow> Inl (KeyError ''skill_level'')
           | Some skill_level \<Rightarrow>
               (case config ''play_time'' of
                  None \<Rightarrow> Inl (KeyError ''play_time'')
                | Some play_time \<Rightarrow> Inr (''stockfish_'' @ skill_level, Some play_time))))"

definition get_player_titles_and_time ::
  "('b, 's1) player \<Rightarrow> ('b, 's2) player
   \<Rightarrow> error + (string \<times> string \<times> string option \<times> string option)" where
  "get_player_titles_and_time p1 p2 =
     (case title_and_time (get_config p1) of
        Inl e \<Rightarrow> Inl e
      | Inr (player_one_title, player_one_time) \<Rightarrow>
          (case title_and_time (get_config p2) of
             Inl e \<Rightarrow> Inl e
           | Inr (player_two_title, player_two_time) \<Rightarrow>
               Inr (player_one_title, player_two_title, player_one_time, player_two_time)))"

text \<open>The three values of \<^verbatim>\<open>result\<close>, \<^verbatim>\<open>player_one_score\<close> and \<^verbatim>\<open>player_two_score\<close>.\<close>

definition result_and_scores ::
  "('b, 'm) rules \<Rightarrow> ('b, 's1, 's2) game \<Rightarrow> string \<times> score \<times> score" where
  "result_and_scores orc g =
     (if player_one_resignation g \<or> player_one_failed_to_find_legal_move g then
        (''0-1'', IntScore 0, IntScore 1)
      else if player_two_resignation g \<or> player_two_failed_to_find_legal_move g then
        (''1-0'', IntScore 1, IntScore 0)
      else
        (let result = board_result orc (board g) in
         if CHR ''-'' \<in> set result then
           (result, StrScore (split_sep CHR ''-'' result ! 0),
            StrScore (split_sep CHR ''-'' result ! 1))
         else if result = ''*'' then
           (result, FloatScore (1 / 2), FloatScore (1 / 2))
         else
           (result, FloatScore (- 10000000000), FloatScore (- 10000000000))))"

text \<open>The name of the file the row is appended to.\<close>

definition csv_file_path :: "string \<Rightarrow> string \<Rightarrow> string" where
  "csv_file_path player_one_title player_two_title =
     (if RUN_FOR_ANALYSIS then
        map (\<lambda>c. if c = CHR ''.'' then CHR ''_'' else c)
          (''logs/'' @ player_one_title @ ''_vs_'' @ player_two_title) @ ''.csv''
      else recording_file)"

text \<open>
  \<^verbatim>\<open>record_results\<close>: the arguments are the game's variables \<open>g\<close>, the identifier and
  the duration, which come from the clock and the random generator. The result is the
  file's name and the row appended to it.
\<close>

definition record_results ::
  "('b, 'm) rules \<Rightarrow> ('b, 's1) player \<Rightarrow> ('b, 's2) player \<Rightarrow> ('b, 's1, 's2) game
   \<Rightarrow> string \<Rightarrow> rat \<Rightarrow> error + (string \<times> info_dict)" where
  "record_results orc p1 p2 g unique_game_id total_time =
     (case get_player_titles_and_time p1 p2 of
        Inl e \<Rightarrow> Inl e
      | Inr (player_one_title, player_two_title, player_one_time, player_two_time) \<Rightarrow>
          (case result_and_scores orc g of
             (result, player_one_score, player_two_score) \<Rightarrow>
               Inr (csv_file_path player_one_title player_two_title,
                 \<lparr>row_game_id = unique_game_id,
                  row_transcript = game_state g,
                  row_result = result,
                  row_player_one = player_one_title,
                  row_player_two = player_two_title,
                  row_player_one_time = player_one_time,
                  row_player_two_time = player_two_time,
                  row_player_one_score = player_one_score,
                  row_player_two_score = player_two_score,
                  row_player_one_illegal_moves = player_one_illegal_moves g,
                  row_player_two_illegal_moves = player_two_illegal_moves g,
                  row_player_one_legal_moves = player_one_legal_moves g,
                  row_player_two_legal_moves = player_two_legal_moves g,
                  row_player_one_resignation = player_one_resignation g,
                  row_player_two_resignation = player_two_resignation g,
                  row_player_one_failed_to_find_legal_move =
                    player_one_failed_to_find_legal_move g,
                  row_player_two_failed_to_find_legal_move =
                    player_two_failed_to_find_legal_move g,
                  row_game_title = player_one_title @ '' vs. '' @ player_two_title,
                  row_number_of_moves = board_fullmove_number orc (board g),
                  row_time_taken = total_time,
                  row_total_moves = total_moves g,
                  row_illegal_moves = illegal_moves g\<rparr>)))"

subsection \<open>The batch: \<^verbatim>\<open>play_game\<close>\<close>

text \<open>The variables of a game as they are set before the loop.\<close>

definition new_game :: "'b \<Rightarrow> string \<Rightarrow> 's1 \<Rightarrow> 's2 \<Rightarrow> string list \<Rightarrow> ('b, 's1, 's2) game" where
  "new_game b gs ps1 ps2 dg =
     \<lparr>board = b, game_state = gs,
      player_one_illegal_moves = 0, player_two_illegal_moves = 0,
      player_one_legal_moves = 0, player_two_legal_moves = 0,
      player_one_resignation = False, player_two_resignation = False,
      player_one_failed_to_find_legal_move = False,
      player_two_failed_to_find_legal_move = False,
      total_moves = 0, illegal_moves = 0,
      player_one_state = ps1, player_two_state = ps2, diagnostics = dg\<rparr>"

text \<open>
  One pass through \<^verbatim>\<open>for _ in range(max_games)\<close>. \<open>prompt\<close> is the content of
  \<^verbatim>\<open>tmp/prompt.txt\<close>, \<open>stamp\<close> the identifier and the duration of this game, \<open>w\<close>
  what outlives the game: the agents' states, the diagnostic file and the generator.
  The result is the row written and the new \<open>w\<close>.
\<close>

definition play_single_game ::
  "('b, 'm) rules \<Rightarrow> ('b, 's1) player \<Rightarrow> ('b, 's2) player \<Rightarrow> ('r \<Rightarrow> nat \<times> 'r) \<Rightarrow> string
   \<Rightarrow> int option \<Rightarrow> string \<times> rat \<Rightarrow> 's1 \<times> 's2 \<times> string list \<times> 'r
   \<Rightarrow> error + ((string \<times> info_dict) \<times> 's1 \<times> 's2 \<times> string list \<times> 'r)" where
  "play_single_game orc p1 p2 rand prompt randomize_opening_moves stamp w =
     (case w of (ps1, ps2, dg, r) \<Rightarrow>
        (case (case randomize_opening_moves of
                 None \<Rightarrow> Inr ((prompt, board_new orc), r)
               | Some n \<Rightarrow>
                   initialize_game_with_random_moves orc rand (board_new orc) prompt n r) of
           Inl e \<Rightarrow> Inl e
         | Inr ((gs, b), r') \<Rightarrow>
             (case game_loop orc p1 p2 (new_game b gs ps1 ps2 dg) of
                Inl e \<Rightarrow> Inl e
              | Inr g \<Rightarrow>
                  (case record_results orc p1 p2 g (fst stamp) (snd stamp) of
                     Inl e \<Rightarrow> Inl e
                   | Inr row \<Rightarrow>
                       Inr (row, player_one_state g, player_two_state g, diagnostics g, r')))))"

text \<open>
  The loop over the games, from game \<open>i\<close> on, with the rows written so far. An
  exception ends the batch; the rows already written stay in their files.
\<close>

function play_games ::
  "('b, 'm) rules \<Rightarrow> ('b, 's1) player \<Rightarrow> ('b, 's2) player \<Rightarrow> ('r \<Rightarrow> nat \<times> 'r) \<Rightarrow> string
   \<Rightarrow> int option \<Rightarrow> (int \<Rightarrow> string \<times> rat) \<Rightarrow> int \<Rightarrow> int \<Rightarrow> 's1 \<times> 's2 \<times> string list \<times> 'r
   \<Rightarrow> (string \<times> info_dict) list
   \<Rightarrow> error option \<times> (string \<times> info_dict) list \<times> 's1 \<times> 's2 \<times> string list \<times> 'r" where
  "play_games orc p1 p2 rand prompt randomize_opening_moves stamps max_games i w rows =
     (if i < max_games then
        (case play_single_game orc p1 p2 rand prompt randomize_opening_moves (stamps i) w of
           Inl e \<Rightarrow> (Some e, rows, w)
         | Inr (row, w') \<Rightarrow>
             play_games orc p1 p2 rand prompt randomize_opening_moves stamps max_games (i + 1)
               w' (rows @ [row]))
      else (None, rows, w))"
  by pat_completeness auto
termination
  by (relation "measure (\<lambda>(orc, p1, p2, rand, prompt, randomize_opening_moves, stamps,
        max_games, i, w, rows). nat (max_games - i))") auto

declare play_games.simps [simp del]

definition play_game ::
  "('b, 'm) rules \<Rightarrow> ('b, 's1) player \<Rightarrow> ('b, 's2) player \<Rightarrow> ('r \<Rightarrow> nat \<times> 'r) \<Rightarrow> string
   \<Rightarrow> (int \<Rightarrow> string \<times> rat) \<Rightarrow> int \<Rightarrow> int option \<Rightarrow> 's1 \<times> 's2 \<times> string list \<times> 'r
   \<Rightarrow> error option \<times> (string \<times> info_dict) list \<times> 's1 \<times> 's2 \<times> string list \<times> 'r" where
  "play_game orc p1 p2 rand prompt stamps max_games randomize_opening_moves w =
     play_games orc p1 p2 rand prompt randomize_opening_moves stamps max_games 0 w []"

section \<open>Notions used to state the properties\<close>

subsection \<open>The three shapes of a response\<close>

definition exhausted_response :: "int \<Rightarrow> 'm LegalMoveResponse" where
  "exhausted_response mx = \<lparr>move_san = None, move_uci = None, attempts = mx,
      is_resignation = False, is_illegal_move = True\<rparr>"

definition resignation_response :: "int \<Rightarrow> 'm LegalMoveResponse" where
  "resignation_response k = \<lparr>move_san = None, move_uci = None, attempts = k,
      is_resignation = True, is_illegal_move = False\<rparr>"

definition legal_response :: "string \<Rightarrow> 'm \<Rightarrow> int \<Rightarrow> 'm LegalMoveResponse" where
  "legal_response s m k = \<lparr>move_san = Some (if startswith_space s then s else CHR '' '' # s),
      move_uci = Some m, attempts = k, is_resignation = False, is_illegal_move = False\<rparr>"

text \<open>
  What the loop can return when it runs from attempt \<open>a\<close> with the ceiling \<open>mx\<close>:
  exhaustion at \<open>mx\<close>, a resignation at some attempt \<open>k\<close>, or at some attempt \<open>k\<close> a
  text \<open>s\<close> that the board parses to a legal move \<open>m\<close>.
\<close>

definition response_shape ::
  "('b, 'm) rules \<Rightarrow> 'b \<Rightarrow> int \<Rightarrow> int \<Rightarrow> 'm LegalMoveResponse \<Rightarrow> bool" where
  "response_shape orc b mx a r \<longleftrightarrow>
   r = exhausted_response mx
   \<or> (\<exists>k. a \<le> k \<and> k < mx \<and> r = resignation_response k)
   \<or> (\<exists>k s m. a \<le> k \<and> k < mx \<and> board_parse_san orc b s = Some m
        \<and> m \<in> set (board_legal_moves orc b) \<and> r = legal_response s m k)"

subsection \<open>Small collaborators for concrete runs\<close>

text \<open>
  A stand-in for the chess rules: a board is the list of the moves pushed so far, the
  moves \<open>0\<close> (``a3'') and \<open>1\<close> (``a4'') are legal until \<open>n\<close> plies have been played,
  ``Qh5'' parses to a move that is never legal, and after \<open>n\<close> plies the game is over
  and drawn. The move number goes up after every second ply.
\<close>

definition toy_rules :: "nat \<Rightarrow> (nat list, nat) rules" where
  "toy_rules n =
     \<lparr>board_new = [],
      board_reset = (\<lambda>b. []),
      board_legal_moves = (\<lambda>b. if length b < n then [0, 1] else []),
      board_parse_san = (\<lambda>b s. if s = ''a3'' then Some 0 else if s = ''a4'' then Some 1
                                else if s = ''Qh5'' then Some 2 else None),
      board_san = (\<lambda>b m. if m = 0 then ''a3'' else ''a4''),
      board_push = (\<lambda>m b. b @ [m]),
      board_is_game_over = (\<lambda>b. n \<le> length b),
      board_result = (\<lambda>b. if n \<le> length b then ''1/2-1/2'' else ''*''),
      board_fullmove_number = (\<lambda>b. 1 + int (length b) div 2)\<rparr>"

text \<open>
  An agent that reads its answers off a list, one for each call, and returns
  \<^verbatim>\<open>None\<close> once the list is used up; its state is the number of calls made.
\<close>

definition scripted :: "string option list \<Rightarrow> (string \<rightharpoonup> string) \<Rightarrow> ('b, nat) player" where
  "scripted answers config =
     \<lparr>get_move = (\<lambda>b gs temp k. (if k < length answers then answers ! k else None, Suc k)),
      get_config = config\<rparr>"

text \<open>The two kinds of configuration that \<^verbatim>\<open>get_player_titles_and_time\<close> tells apart.\<close>

definition model_config :: "string \<rightharpoonup> string" where
  "model_config = [''model'' \<mapsto> ''gpt-3.5-turbo-instruct'']"

definition engine_config :: "string \<rightharpoonup> string" where
  "engine_config = [''skill_level'' \<mapsto> ''0'', ''play_time'' \<mapsto> ''0.1'']"

subsection \<open>Scores read as numbers\<close>

text \<open>
  A row holds a score as an integer, as a float or as a piece of the result text. To add
  two scores the text is read as a number: a run of digits, or two runs of digits with a
  slash between them.
\<close>

definition digit_value :: "char \<Rightarrow> nat option" where
  "digit_value c =
     (let n = (of_char c :: nat) in if 48 \<le> n \<and> n \<le> 57 then Some (n - 48) else None)"

fun nat_of_digits :: "string \<Rightarrow> nat \<Rightarrow> nat option" where
  "nat_of_digits [] acc = Some acc"
| "nat_of_digits (c # cs) acc =
     (case digit_value c of None \<Rightarrow> None | Some d \<Rightarrow> nat_of_digits cs (10 * acc + d))"

definition nat_of_text :: "string \<Rightarrow> nat option" where
  "nat_of_text s = (if s = [] then None else nat_of_digits s 0)"

definition rat_of_text :: "string \<Rightarrow> rat option" where
  "rat_of_text s =
     (case split_sep CHR ''/'' s of
        [n] \<Rightarrow> map_option of_nat (nat_of_text n)
      | [n, d] \<Rightarrow>
          (case (nat_of_text n, nat_of_text d) of
             (Some a, Some b) \<Rightarrow> if b = 0 then None else Some (of_nat a / of_nat b)
           | _ \<Rightarrow> None)
      | _ \<Rightarrow> None)"

fun score_value :: "score \<Rightarrow> rat option" where
  "score_value (IntScore i) = Some (of_int i)"
| "score_value (FloatScore x) = Some x"
| "score_value (StrScore s) = rat_of_text s"

text \<open>The score that \<^verbatim>\<open>record_results\<close> gives for a result it does not know.\<close>

definition indeterminate :: score where
  "indeterminate = FloatScore (- 10000000000)"

text \<open>Both scores are numbers and they add up to 0 or to 1.\<close>

definition zero_sum :: "score \<Rightarrow> score \<Rightarrow> bool" where
  "zero_sum a b \<longleftrightarrow>
     (case (score_value a, score_value b) of
        (Some x, Some y) \<Rightarrow> x + y = 0 \<or> x + y = 1
      | _ \<Rightarrow> False)"

subsection \<open>Concrete games on the small board\<close>

text \<open>A new game with an empty prompt, and the same game after White's ``a3''.\<close>

definition opening_game :: "(nat list, nat, nat) game" where
  "opening_game = new_game [] [] 0 0 []"

definition after_white :: "(nat list, nat, nat) game" where
  "after_white = opening_game\<lparr>board := [0], game_state := ''1. a3'', total_moves := 1,
       player_one_legal_moves := 1, player_two_legal_moves := 1, player_one_state := 1\<rparr>"

text \<open>A game drawn by the board after four plies, and the row written for it.\<close>

definition drawn_game :: "(nat list, nat, nat) game" where
  "drawn_game = (new_game [0, 0, 0, 0] ''1. a3 a3 2. a3 a3'' 2 2 [])
     \<lparr>total_moves := 2, player_one_legal_moves := 2, player_two_legal_moves := 2\<rparr>"

definition drawn_row :: info_dict where
  "drawn_row =
     \<lparr>row_game_id = ''1700000000-1234'',
      row_transcript = ''1. a3 a3 2. a3 a3'',
      row_result = ''1/2-1/2'',
      row_player_one = ''gpt-3.5-turbo-instruct'',
      row_player_two = ''stockfish_0'',
      row_player_one_time = None,
      row_player_two_time = Some ''0.1'',
      row_player_one_score = StrScore ''1/2'',
      row_player_two_score = StrScore ''1/2'',
      row_player_one_illegal_moves = 0,
      row_player_two_illegal_moves = 0,
      row_player_one_legal_moves = 2,
      row_player_two_legal_moves = 2,
      row_player_one_resignation = False,
      row_player_two_resignation = False,
      row_player_one_failed_to_find_legal_move = False,
      row_player_two_failed_to_find_legal_move = False,
      row_game_title = ''gpt-3.5-turbo-instruct vs. stockfish_0'',
      row_number_of_moves = 3,
      row_time_taken = 3,
      row_total_moves = 2,
      row_illegal_moves = 0\<rparr>"

subsection \<open>The tests that end a game after a half-move\<close>

text \<open>The condition of the \<^verbatim>\<open>break\<close> after player one's turn, and of the one after player two's.\<close>

definition stops_after_one :: "('b, 'm) rules \<Rightarrow> ('b, 's1, 's2) game \<Rightarrow> bool" where
  "stops_after_one orc g \<longleftrightarrow>
     board_is_game_over orc (board g) \<or> player_one_resignation g
     \<or> player_one_failed_to_find_legal_move g"

definition stops_after_two :: "('b, 'm) rules \<Rightarrow> ('b, 's1, 's2) game \<Rightarrow> bool" where
  "stops_after_two orc g \<longleftrightarrow>
     board_is_game_over orc (board g) \<or> player_two_resignation g
     \<or> player_two_failed_to_find_legal_move g"

subsection \<open>A long game on the small board\<close>

text \<open>An agent that gives the same answer for ever, and what is read off a finished
  game: the number of plies on the board, the value of \<^verbatim>\<open>total_moves\<close>, and whether
  a side resigned or ran out of attempts.\<close>

definition repeating :: "string option \<Rightarrow> (string \<rightharpoonup> string) \<Rightarrow> ('b, nat) player" where
  "repeating t config = \<lparr>get_move = (\<lambda>b gs temp k. (t, Suc k)), get_config = config\<rparr>"

definition game_summary :: "error + ('a list, 's1, 's2) game \<Rightarrow> (nat \<times> int \<times> bool) option" where
  "game_summary x =
     (case x of
        Inl e \<Rightarrow> None
      | Inr g \<Rightarrow>
          Some (length (board g), total_moves g,
                player_one_resignation g \<or> player_one_failed_to_find_legal_move g
                \<or> player_two_resignation g \<or> player_two_failed_to_find_legal_move g))"

text \<open>A game that the move cap has stopped after two plies of its ninetieth pass.\<close>

definition capped_game :: "(nat list, nat, nat) game" where
  "capped_game = (new_game [0, 0] ''1. a3 a3'' 1 1 [])
     \<lparr>total_moves := 90, player_one_legal_moves := 1, player_two_legal_moves := 1\<rparr>"

text \<open>The end of the four-ply game in which both sides play legal moves.\<close>

definition drawn_final :: "(nat list, nat, nat) game" where
  "drawn_final = opening_game\<lparr>board := [0, 1, 1, 0], game_state := ''1. a3 a4 2. a4 a3'',
      total_moves := 2, player_one_legal_moves := 2, player_two_legal_moves := 2,
      player_one_state := 2, player_two_state := 2\<rparr>"

subsection \<open>The attempts of the random opening\<close>

text \<open>
  What one pass of \<^verbatim>\<open>for attempt in range(MAX_INIT_ATTEMPTS)\<close> computes before it
  looks at \<^verbatim>\<open>moves\<close>: the board is reset, the transcript is the initial one again,
  \<^verbatim>\<open>moves\<close> is empty, and the moves are drawn.
\<close>

definition one_attempt ::
  "('b, 'm) rules \<Rightarrow> ('r \<Rightarrow> nat \<times> 'r) \<Rightarrow> string \<Rightarrow> int \<Rightarrow> 'b \<Rightarrow> 'r
   \<Rightarrow> 'm list \<times> string \<times> 'b \<times> 'r" where
  "one_attempt orc rand gs0 n b r =
     random_moves_from orc rand n 1 ([], gs0, board_reset orc b, r)"

text \<open>
  \<open>k\<close> attempts in a row that all end with \<^verbatim>\<open>moves\<close> empty: the board and the
  generator they leave behind, or \<open>None\<close> when one of them ends with a move.
\<close>

fun failed_attempts ::
  "('b, 'm) rules \<Rightarrow> ('r \<Rightarrow> nat \<times> 'r) \<Rightarrow> string \<Rightarrow> int \<Rightarrow> nat \<Rightarrow> 'b \<Rightarrow> 'r
   \<Rightarrow> ('b \<times> 'r) option" where
  "failed_attempts orc rand gs0 n 0 b r = Some (b, r)"
| "failed_attempts orc rand gs0 n (Suc k) b r =
     (case one_attempt orc rand gs0 n b r of
        (moves, gs, b', r') \<Rightarrow>
          if moves = [] then failed_attempts orc rand gs0 n k b' r' else None)"

text \<open>A generator for concrete runs: it hands out 0, 1, 2 and so on. And a clock that
  gives every game the same identifier and duration.\<close>

definition counting :: "nat \<Rightarrow> nat \<times> nat" where
  "counting r = (r, Suc r)"

definition fixed_stamp :: "int \<Rightarrow> string \<times> rat" where
  "fixed_stamp i = (''1700000000-1234'', 3)"

subsection \<open>Reading a transcript back\<close>

text \<open>
  What the rules library is relied on for. A text that the parser accepts is a word of
  standard notation: not empty, without whitespace, without a period.
\<close>

definition san_text_ok :: "string \<Rightarrow> bool" where
  "san_text_ok t \<longleftrightarrow> t \<noteq> [] \<and> (\<forall>c \<in> set t. \<not> isspace c) \<and> CHR ''.'' \<notin> set t"

definition parser_contract :: "('b, 'm) rules \<Rightarrow> bool" where
  "parser_contract orc \<longleftrightarrow> (\<forall>b t m. board_parse_san orc b t = Some m \<longrightarrow> san_text_ok t)"

text \<open>
  The move counter starts at 1 and goes up after Black's move, so it is not 1 once two
  plies have been pushed.
\<close>

definition counter_contract :: "('b, 'm) rules \<Rightarrow> bool" where
  "counter_contract orc \<longleftrightarrow>
     (\<forall>b m1 m2. board_fullmove_number orc (board_push orc m2 (board_push orc m1 b)) \<noteq> 1)"

text \<open>
  Replaying the tokens of a transcript from a board: a token with a period has to be
  the board's move counter followed by a period, any other token has to parse on the
  board as it stands to a legal move, which is pushed. The result is the board after
  the last token.
\<close>

fun replay :: "('b, 'm) rules \<Rightarrow> 'b \<Rightarrow> string list \<Rightarrow> 'b option" where
  "replay orc b [] = Some b"
| "replay orc b (t # ts) =
     (if CHR ''.'' \<in> set t then
        (if t = str_int (board_fullmove_number orc b) @ ''.'' then replay orc b ts else None)
      else
        (case board_parse_san orc b t of
           None \<Rightarrow> None
         | Some m \<Rightarrow>
             if m \<in> set (board_legal_moves orc b) then replay orc (board_push orc m b) ts
             else None))"

text \<open>
  What a turn appends to the transcript and does to the board: nothing, or a space and
  the text of a legal move, which is pushed.
\<close>

definition ply_piece :: "('b, 'm) rules \<Rightarrow> 'b \<Rightarrow> string \<Rightarrow> 'b \<Rightarrow> bool" where
  "ply_piece orc b piece b' \<longleftrightarrow>
     (piece = [] \<and> b' = b)
     \<or> (\<exists>t m. san_text_ok t \<and> board_parse_san orc b t = Some m
           \<and> m \<in> set (board_legal_moves orc b)
           \<and> piece = CHR '' '' # t \<and> b' = board_push orc m b)"

text \<open>
  The transcript of \<open>g'\<close> is that of \<open>g\<close> with a portion added which replays from the
  board of \<open>g\<close> to the board of \<open>g'\<close>, and which starts with a space unless it is
  empty or the move counter of \<open>g\<close> is 1.
\<close>

definition transcript_replays ::
  "('b, 'm) rules \<Rightarrow> ('b, 's1, 's2) game \<Rightarrow> ('b, 's1, 's2) game \<Rightarrow> bool" where
  "transcript_replays orc g g' \<longleftrightarrow>
     (\<exists>portion. game_state g' = game_state g @ portion
        \<and> (portion = [] \<or> board_fullmove_number orc (board g) = 1 \<or> isspace (hd portion))
        \<and> replay orc (board g) (split_ws portion) = Some (board g'))"

section \<open>Properties\<close>

lemmas toy_simps = player_one_ply_def player_two_ply_def play_turn_def get_legal_move_def
  attempt_loop.simps scripted_def toy_rules_def model_config_def engine_config_def
  try_parse_san_def startswith_space_def temperature_def begin_round_def new_game_def
  str_int_def str_nat.simps digit_char_def opening_game_def Let_def

subsection \<open>What \<^verbatim>\<open>get_legal_move\<close> returns\<close>

lemma response_shape_exhausted: "response_shape orc b mx a (exhausted_response mx)"
  by (simp add: response_shape_def)

lemma response_shape_resignation:
  "a < mx \<Longrightarrow> response_shape orc b mx a (resignation_response a)"
  by (auto simp: response_shape_def)

lemma response_shape_legal:
  "a < mx \<Longrightarrow> board_parse_san orc b s = Some m \<Longrightarrow> m \<in> set (board_legal_moves orc b) \<Longrightarrow>
   response_shape orc b mx a (legal_response s m a)"
  unfolding response_shape_def by blast

lemma response_shape_later:
  assumes "response_shape orc b mx (a + 1) r"
  shows "response_shape orc b mx a r"
proof -
  have le: "\<And>k::int. a + 1 \<le> k \<Longrightarrow> a \<le> k" by simp
  show ?thesis
    using assms le unfolding response_shape_def by blast
qed

text \<open>
  Every response the loop returns has one of the three shapes. The induction is on the
  number of attempts left.
\<close>

lemma attempt_loop_result_cases:
  "attempt_loop orc pl b gs mx a ps dg = Inr (r, ps', dg') \<Longrightarrow> response_shape orc b mx a r"
proof (induction "nat (mx - a)" arbitrary: a ps dg)
  case 0
  then have "\<not> a < mx" by simp
  with "0.prems" show ?case
    by (auto simp: attempt_loop.simps [of orc pl b gs mx a ps dg] exhausted_response_def
          response_shape_def)
next
  case (Suc n)
  then have lt: "a < mx" and n: "n = nat (mx - (a + 1))"
    by auto
  obtain t ps1 where gm: "get_move pl b gs (temperature a mx) ps = (t, ps1)"
    by (cases "get_move pl b gs (temperature a mx) ps")
  note IH = response_shape_later [OF Suc.hyps(1) [OF n]]
  have resign: "response_shape orc b mx a \<lparr>move_san = None, move_uci = None, attempts = a,
      is_resignation = True, is_illegal_move = False\<rparr>"
    using response_shape_resignation [OF lt, of orc b] by (simp add: resignation_response_def)
  have legal: "response_shape orc b mx a
      \<lparr>move_san = Some (if startswith_space s then s else CHR '' '' # s), move_uci = Some m,
       attempts = a, is_resignation = False, is_illegal_move = False\<rparr>"
    if "board_parse_san orc b s = Some m" and "m \<in> set (board_legal_moves orc b)" for s m
    using response_shape_legal [OF lt that] by (simp add: legal_response_def)
  have legal1: "response_shape orc b mx a
      \<lparr>move_san = Some s, move_uci = Some m,
       attempts = a, is_resignation = False, is_illegal_move = False\<rparr>"
    if "board_parse_san orc b s = Some m" and "m \<in> set (board_legal_moves orc b)"
      and "startswith_space s" for s m
    using legal [OF that(1,2)] that(3) by simp
  have legal2: "response_shape orc b mx a
      \<lparr>move_san = Some (CHR '' '' # s), move_uci = Some m,
       attempts = a, is_resignation = False, is_illegal_move = False\<rparr>"
    if "board_parse_san orc b s = Some m" and "m \<in> set (board_legal_moves orc b)"
      and "\<not> startswith_space s" for s m
    using legal [OF that(1,2)] that(3) by simp
  note shapes = resign legal1 legal2
  from Suc.prems(1) lt gm show ?case
    by (subst (asm) attempt_loop.simps)
       (auto split: if_splits option.splits simp: try_parse_san_def intro: IH shapes)
qed

text \<open>
  C1. With \<^verbatim>\<open>max_attempts = 5\<close>, the attempt count of a response that
  \<^verbatim>\<open>get_legal_move\<close> returns lies between 0 and 5, and it is 5 exactly when the
  response reports illegal-move exhaustion.
\<close>

theorem get_legal_move_attempts:
  assumes "get_legal_move orc pl b gs player_one 5 ps dg = Inr (r, ps', dg')"
  shows "0 \<le> attempts r \<and> attempts r \<le> 5 \<and> (attempts r = 5 \<longleftrightarrow> is_illegal_move r)"
proof -
  from assms have "response_shape orc b 5 0 r"
    unfolding get_legal_move_def by (rule attempt_loop_result_cases)
  then show ?thesis
    by (auto simp: response_shape_def exhausted_response_def resignation_response_def
          legal_response_def)
qed

text \<open>
  A run of C1: the agent answers an illegal move, then nothing, then ``a3''; the response
  is the legal move at attempt 2.
\<close>

theorem get_legal_move_attempts_witness:
  "get_legal_move (toy_rules 4) (scripted [Some ''Qh5'', None, Some ''a3''] model_config)
       [] ''1.'' True 5 0 []
   = Inr (legal_response ''a3'' 0 2, 3, [diagnostic_entry ''1.'' None])
   \<and> 0 \<le> attempts (legal_response ''a3'' (0::nat) 2)
   \<and> attempts (legal_response ''a3'' (0::nat) 2) \<le> 5
   \<and> (attempts (legal_response ''a3'' (0::nat) 2) = 5
        \<longleftrightarrow> is_illegal_move (legal_response ''a3'' (0::nat) 2))"
proof -
  have run: "get_legal_move (toy_rules 4) (scripted [Some ''Qh5'', None, Some ''a3''] model_config)
       [] ''1.'' True 5 0 []
     = Inr (legal_response ''a3'' 0 2, 3, [diagnostic_entry ''1.'' None])"
    by (simp add: get_legal_move_def attempt_loop.simps scripted_def toy_rules_def
          model_config_def try_parse_san_def startswith_space_def temperature_def
          legal_response_def)
  from get_legal_move_attempts [OF run] run show ?thesis
    by simp
qed

subsection \<open>One pass of the retry loop\<close>

text \<open>
  The five ways through one pass: the ceiling is reached, the agent gives up, the text
  (or its absence) does not parse, the move is not legal, the move is legal.
\<close>

lemma attempt_loop_exhausted:
  "\<not> a < mx \<Longrightarrow> attempt_loop orc pl b gs mx a ps dg = Inr (exhausted_response mx, ps, dg)"
  by (simp add: attempt_loop.simps [of orc pl b gs mx a ps dg] exhausted_response_def)

lemma attempt_loop_marker:
  assumes "a < mx"
    and "get_move pl b gs (temperature a mx) ps = (Some t, ps1)"
    and "t = ''1-0'' \<or> t = ''0-1'' \<or> t = ''1/2-1/2''"
  shows "attempt_loop orc pl b gs mx a ps dg = Inr (resignation_response a, ps1, dg)"
  using assms
  by (auto simp: attempt_loop.simps [of orc pl b gs mx a ps dg] resignation_response_def)

lemma attempt_loop_parse_failure:
  assumes "a < mx"
    and "get_move pl b gs (temperature a mx) ps = (t, ps1)"
    and "t \<noteq> Some ''1-0''" "t \<noteq> Some ''0-1''" "t \<noteq> Some ''1/2-1/2''"
    and "try_parse_san orc b t = None"
  shows "attempt_loop orc pl b gs mx a ps dg =
    (case get_config pl ''model'' of
       None \<Rightarrow> Inl (KeyError ''model'')
     | Some model \<Rightarrow> attempt_loop orc pl b gs mx (a + 1) ps1
         (if model = ''gpt-3.5-turbo-instruct'' then dg @ [diagnostic_entry gs t] else dg))"
  using assms
  by (cases t) (auto simp: attempt_loop.simps [of orc pl b gs mx a ps dg])

lemma attempt_loop_illegal:
  assumes "a < mx"
    and "get_move pl b gs (temperature a mx) ps = (Some s, ps1)"
    and "s \<noteq> ''1-0''" "s \<noteq> ''0-1''" "s \<noteq> ''1/2-1/2''"
    and "board_parse_san orc b s = Some m" and "m \<notin> set (board_legal_moves orc b)"
  shows "attempt_loop orc pl b gs mx a ps dg = attempt_loop orc pl b gs mx (a + 1) ps1 dg"
  using assms
  by (simp add: attempt_loop.simps [of orc pl b gs mx a ps dg] try_parse_san_def)

lemma attempt_loop_legal:
  assumes "a < mx"
    and "get_move pl b gs (temperature a mx) ps = (Some s, ps1)"
    and "s \<noteq> ''1-0''" "s \<noteq> ''0-1''" "s \<noteq> ''1/2-1/2''"
    and "board_parse_san orc b s = Some m" and "m \<in> set (board_legal_moves orc b)"
  shows "attempt_loop orc pl b gs mx a ps dg = Inr (legal_response s m a, ps1, dg)"
  using assms
  by (simp add: attempt_loop.simps [of orc pl b gs mx a ps dg] try_parse_san_def
        legal_response_def)

text \<open>
  C6. When the agent's answer at attempt \<open>a\<close> is one of the texts ``1-0'', ``0-1'' and
  ``1/2-1/2'', the loop returns at once: the response is a resignation with no move, it is
  not marked as an illegal move, it carries the index \<open>a\<close>, and the agent is left in the
  state this one call put it in, so it is not asked again. At the first attempt this is
  the whole call of \<^verbatim>\<open>get_legal_move\<close>.
\<close>

theorem resignation_marker_stops:
  assumes "a < mx"
    and "get_move pl b gs (temperature a mx) ps = (Some t, ps1)"
    and "t = ''1-0'' \<or> t = ''0-1'' \<or> t = ''1/2-1/2''"
  shows "attempt_loop orc pl b gs mx a ps dg =
           Inr (\<lparr>move_san = None, move_uci = None, attempts = a,
                  is_resignation = True, is_illegal_move = False\<rparr>, ps1, dg)
         \<and> (a = 0 \<longrightarrow> get_legal_move orc pl b gs player_one mx ps dg =
              Inr (\<lparr>move_san = None, move_uci = None, attempts = 0,
                     is_resignation = True, is_illegal_move = False\<rparr>, ps1, dg))"
  using attempt_loop_marker [OF assms, of orc dg]
  by (auto simp: resignation_response_def get_legal_move_def)

text \<open>
  Runs of C6: after one illegal move the agent answers ``1/2-1/2'' at attempt 1, and
  its third answer is never asked for; an agent answers ``0-1'' at the first attempt of
  a call.
\<close>

theorem resignation_marker_stops_witness:
  "(1::int) < 5
   \<and> get_move (scripted [Some ''Qh5'', Some ''1/2-1/2'', Some ''a3''] model_config)
        ([]::nat list) ''1.'' (temperature 1 5) 1 = (Some ''1/2-1/2'', 2)
   \<and> attempt_loop (toy_rules 4) (scripted [Some ''Qh5'', Some ''1/2-1/2'', Some ''a3''] model_config)
        [] ''1.'' 5 1 1 [] =
        Inr (\<lparr>move_san = None, move_uci = None, attempts = 1,
               is_resignation = True, is_illegal_move = False\<rparr>, 2, [])
   \<and> get_legal_move (toy_rules 4) (scripted [Some ''0-1'', Some ''a3''] engine_config)
        [] ''1.'' True 5 0 [] =
        Inr (\<lparr>move_san = None, move_uci = None, attempts = 0,
               is_resignation = True, is_illegal_move = False\<rparr>, 1, [])"
proof -
  have gm: "get_move (scripted [Some ''Qh5'', Some ''1/2-1/2'', Some ''a3''] model_config)
        ([]::nat list) ''1.'' (temperature 1 5) 1 = (Some ''1/2-1/2'', 2)"
    by (simp add: scripted_def)
  have lt: "(1::int) < 5" by simp
  have gm0: "get_move (scripted [Some ''0-1'', Some ''a3''] engine_config)
        ([]::nat list) ''1.'' (temperature 0 5) 0 = (Some ''0-1'', 1)"
    by (simp add: scripted_def)
  have lt0: "(0::int) < 5" by simp
  from resignation_marker_stops [OF lt gm, of "toy_rules 4" "[]"]
  have one: "attempt_loop (toy_rules 4)
        (scripted [Some ''Qh5'', Some ''1/2-1/2'', Some ''a3''] model_config)
        [] ''1.'' 5 1 1 [] =
        Inr (\<lparr>move_san = None, move_uci = None, attempts = 1,
               is_resignation = True, is_illegal_move = False\<rparr>, 2, [])"
    by simp
  from resignation_marker_stops [OF lt0 gm0, of "toy_rules 4" "[]" True]
  have zero: "get_legal_move (toy_rules 4) (scripted [Some ''0-1'', Some ''a3''] engine_config)
        [] ''1.'' True 5 0 [] =
        Inr (\<lparr>move_san = None, move_uci = None, attempts = 0,
               is_resignation = True, is_illegal_move = False\<rparr>, 1, [])"
    by simp
  from lt gm one zero show ?thesis by simp
qed

subsection \<open>A failed parse and the diagnostic file\<close>

text \<open>
  With a \<^verbatim>\<open>model\<close> key in the agent's configuration the loop always returns a
  response, and what it returns does not depend on the diagnostic file.
\<close>

lemma attempt_loop_returns:
  assumes "get_config pl ''model'' = Some v"
  shows "\<not> isl (attempt_loop orc pl b gs mx a ps dg)"
proof (induction "nat (mx - a)" arbitrary: a ps dg)
  case 0
  then show ?case by (simp add: attempt_loop_exhausted)
next
  case (Suc n)
  then have lt: "a < mx" and n: "n = nat (mx - (a + 1))"
    by auto
  obtain t ps1 where gm: "get_move pl b gs (temperature a mx) ps = (t, ps1)"
    by (cases "get_move pl b gs (temperature a mx) ps")
  note IH = Suc.hyps(1) [OF n]
  from lt gm assms show ?case
    by (subst attempt_loop.simps) (simp add: IH split: option.splits)
qed

lemma attempt_loop_diagnostics_irrelevant:
  "map_sum id (\<lambda>x. (fst x, fst (snd x))) (attempt_loop orc pl b gs mx a ps dg1) =
   map_sum id (\<lambda>x. (fst x, fst (snd x))) (attempt_loop orc pl b gs mx a ps dg2)"
proof (induction "nat (mx - a)" arbitrary: a ps dg1 dg2)
  case 0
  then show ?case by (simp add: attempt_loop_exhausted)
next
  case (Suc n)
  then have lt: "a < mx" and n: "n = nat (mx - (a + 1))"
    by auto
  obtain t ps1 where gm: "get_move pl b gs (temperature a mx) ps = (t, ps1)"
    by (cases "get_move pl b gs (temperature a mx) ps")
  note IH = Suc.hyps(1) [OF n]
  from lt gm show ?case
    by (simp add: attempt_loop.simps [of orc pl b gs mx a ps] IH split: option.splits)
qed

text \<open>Without that key a failed parse ends the call, whatever the rules and the agent.\<close>

lemma attempt_loop_parse_failure_raises:
  assumes "a < mx"
    and "get_move pl b gs (temperature a mx) ps = (t, ps1)"
    and "t \<noteq> Some ''1-0''" "t \<noteq> Some ''0-1''" "t \<noteq> Some ''1/2-1/2''"
    and "try_parse_san orc b t = None"
    and "get_config pl ''model'' = None"
  shows "attempt_loop orc pl b gs mx a ps dg = Inl (KeyError ''model'')"
  using attempt_loop_parse_failure [OF assms(1-6), of dg] assms(7) by simp

text \<open>
  C3. The claim is that a failed parse costs one attempt and is followed by a retry for
  every agent. For an agent whose configuration has no \<^verbatim>\<open>model\<close> key (the engine's
  configuration, which \<^verbatim>\<open>get_player_titles_and_time\<close> tests for) the lookup in the
  handler raises instead: here the first answer does not parse and the call ends with
  the \<^verbatim>\<open>KeyError\<close>, although the second answer would have been legal.
\<close>

theorem parse_failure_without_model_key_raises:
  "get_legal_move (toy_rules 4) (scripted [Some ''e9'', Some ''a3''] engine_config)
     [] ''1.'' True 5 0 [] = Inl (KeyError ''model'')"
  by (simp add: get_legal_move_def attempt_loop.simps scripted_def toy_rules_def
        engine_config_def try_parse_san_def temperature_def)

subsection \<open>The shapes of a response and \<^verbatim>\<open>play_turn\<close>\<close>

text \<open>
  A returned response is a legal move with both fields set, a resignation or an
  exhaustion, and in the last two cases both fields are \<^verbatim>\<open>None\<close>.
\<close>

lemma get_legal_move_trichotomy:
  assumes "get_legal_move orc pl b gs player_one mx ps dg = Inr (r, ps', dg')"
  shows "(\<exists>s m. move_san r = Some s \<and> move_uci r = Some m
            \<and> \<not> is_resignation r \<and> \<not> is_illegal_move r)
         \<or> (move_san r = None \<and> move_uci r = None \<and> is_resignation r \<and> \<not> is_illegal_move r)
         \<or> (move_san r = None \<and> move_uci r = None \<and> \<not> is_resignation r \<and> is_illegal_move r)"
proof -
  from assms have "response_shape orc b mx 0 r"
    unfolding get_legal_move_def by (rule attempt_loop_result_cases)
  then show ?thesis
    by (auto simp: response_shape_def exhausted_response_def resignation_response_def
          legal_response_def)
qed

text \<open>So the third branch of \<^verbatim>\<open>play_turn\<close> is never taken.\<close>

lemma play_turn_fallback_unreachable:
  assumes "get_legal_move orc pl b gs player_one mx ps dg = Inr (r, ps', dg')"
  shows "\<not> (\<not> is_resignation r \<and> \<not> is_illegal_move r
            \<and> (move_san r = None \<or> move_uci r = None))"
  using get_legal_move_trichotomy [OF assms] by auto

text \<open>
  C10. The claim includes that an agent which returns \<^verbatim>\<open>None\<close> is charged one failed
  attempt. For an agent without a \<^verbatim>\<open>model\<close> key that is not so: the \<^verbatim>\<open>None\<close> at the
  second attempt ends the call with the \<^verbatim>\<open>KeyError\<close> and no response is returned.
\<close>

theorem no_text_without_model_key_raises:
  "get_legal_move (toy_rules 4) (scripted [Some ''Qh5'', None, Some ''a3''] engine_config)
     [] ''1.'' True 5 0 [] = Inl (KeyError ''model'')"
  by (simp add: get_legal_move_def attempt_loop.simps scripted_def toy_rules_def
        engine_config_def try_parse_san_def temperature_def)

subsection \<open>The result and the scores\<close>

lemma play_turn_marker:
  assumes "get_move pl b gs (temperature 0 5) ps = (Some t, ps1)"
    and "t = ''1-0'' \<or> t = ''0-1'' \<or> t = ''1/2-1/2''"
  shows "play_turn orc pl b gs player_one ps dg = Inr ((gs, True, False, 0), b, ps1, dg)"
proof -
  have "get_legal_move orc pl b gs player_one 5 ps dg = Inr (resignation_response 0, ps1, dg)"
    unfolding get_legal_move_def by (rule attempt_loop_marker [OF _ assms]) simp
  then show ?thesis
    by (simp add: play_turn_def resignation_response_def)
qed

text \<open>
  C2. A resignation or an exhaustion of player one gives the result ``0-1'' and the
  scores 0 and 1, whatever the board's own result is; one of player two, when player
  one has neither, gives ``1-0'' and the scores 1 and 0. The row that
  \<^verbatim>\<open>record_results\<close> writes carries these values. In particular, when player two
  (Black) answers ``1-0'', its ply ends in a game that is scored 1 for player one (White)
  and 0 for player two.
\<close>

theorem loser_scores_zero:
  "(player_one_resignation g \<or> player_one_failed_to_find_legal_move g \<longrightarrow>
      result_and_scores orc g = (''0-1'', IntScore 0, IntScore 1))
   \<and> (\<not> player_one_resignation g \<and> \<not> player_one_failed_to_find_legal_move g
        \<and> (player_two_resignation g \<or> player_two_failed_to_find_legal_move g) \<longrightarrow>
      result_and_scores orc g = (''1-0'', IntScore 1, IntScore 0))
   \<and> (record_results orc p1 p2 g uid tt = Inr (path, row) \<longrightarrow>
      (row_result row, row_player_one_score row, row_player_two_score row)
        = result_and_scores orc g)
   \<and> (\<not> player_one_resignation g \<and> \<not> player_one_failed_to_find_legal_move g
        \<and> get_move p2 (board g) (game_state g) (temperature 0 5) (player_two_state g)
            = (Some ''1-0'', ps') \<longrightarrow>
      (\<exists>g2. player_two_ply orc p2 g = Inr g2
            \<and> result_and_scores orc g2 = (''1-0'', IntScore 1, IntScore 0)))"
proof (intro conjI impI)
  assume "player_one_resignation g \<or> player_one_failed_to_find_legal_move g"
  then show "result_and_scores orc g = (''0-1'', IntScore 0, IntScore 1)"
    by (simp add: result_and_scores_def)
next
  assume "\<not> player_one_resignation g \<and> \<not> player_one_failed_to_find_legal_move g
        \<and> (player_two_resignation g \<or> player_two_failed_to_find_legal_move g)"
  then show "result_and_scores orc g = (''1-0'', IntScore 1, IntScore 0)"
    by (simp add: result_and_scores_def)
next
  assume "record_results orc p1 p2 g uid tt = Inr (path, row)"
  then show "(row_result row, row_player_one_score row, row_player_two_score row)
        = result_and_scores orc g"
    by (auto simp: record_results_def split: sum.splits prod.splits)
next
  assume a: "\<not> player_one_resignation g \<and> \<not> player_one_failed_to_find_legal_move g
        \<and> get_move p2 (board g) (game_state g) (temperature 0 5) (player_two_state g)
            = (Some ''1-0'', ps')"
  then have "play_turn orc p2 (board g) (game_state g) False (player_two_state g) (diagnostics g)
      = Inr ((game_state g, True, False, 0), board g, ps', diagnostics g)"
    by (intro play_turn_marker) auto
  with a show "\<exists>g2. player_two_ply orc p2 g = Inr g2
            \<and> result_and_scores orc g2 = (''1-0'', IntScore 1, IntScore 0)"
    by (simp add: player_two_ply_def result_and_scores_def)
qed

text \<open>
  Runs of C2: a game in which player one ran out of attempts; a game in which, after
  White's ``a3'', Black answers ``1-0''; and the row written for the latter.
\<close>

theorem loser_scores_zero_witness:
  "result_and_scores (toy_rules 4) (after_white\<lparr>player_one_failed_to_find_legal_move := True\<rparr>)
       = (''0-1'', IntScore 0, IntScore 1)
   \<and> player_two_ply (toy_rules 4) (scripted [Some ''1-0''] engine_config) after_white
     = Inr (after_white\<lparr>player_two_resignation := True, player_two_state := 1\<rparr>)
   \<and> result_and_scores (toy_rules 4)
        (after_white\<lparr>player_two_resignation := True, player_two_state := 1\<rparr>)
       = (''1-0'', IntScore 1, IntScore 0)
   \<and> (\<exists>path row.
        record_results (toy_rules 4) (scripted [Some ''a3''] model_config)
          (scripted [Some ''1-0''] engine_config)
          (after_white\<lparr>player_two_resignation := True, player_two_state := 1\<rparr>)
          ''1700000000-1234'' 3 = Inr (path, row)
        \<and> row_result row = ''1-0''
        \<and> row_player_one_score row = IntScore 1 \<and> row_player_two_score row = IntScore 0)"
proof -
  let ?res = "after_white\<lparr>player_two_resignation := True, player_two_state := 1\<rparr>"
  let ?lost = "after_white\<lparr>player_one_failed_to_find_legal_move := True\<rparr>"
  have black: "player_two_ply (toy_rules 4) (scripted [Some ''1-0''] engine_config) after_white
     = Inr ?res"
    by (simp add: toy_simps after_white_def)
  have asked: "\<not> player_one_resignation after_white
      \<and> \<not> player_one_failed_to_find_legal_move after_white
      \<and> get_move (scripted [Some ''1-0''] engine_config) (board after_white)
           (game_state after_white) (temperature 0 5) (player_two_state after_white)
          = (Some ''1-0'', 1)"
    by (simp add: after_white_def opening_game_def new_game_def scripted_def)
  from loser_scores_zero [where g = after_white and orc = "toy_rules 4"
      and ?p2.0 = "scripted [Some ''1-0''] engine_config" and ps' = 1] asked
  obtain g2 where "player_two_ply (toy_rules 4) (scripted [Some ''1-0''] engine_config)
      after_white = Inr g2"
    and "result_and_scores (toy_rules 4) g2 = (''1-0'', IntScore 1, IntScore 0)"
    by blast
  with black have scored: "result_and_scores (toy_rules 4) ?res
      = (''1-0'', IntScore 1, IntScore 0)"
    by simp
  have white: "player_one_resignation ?lost \<or> player_one_failed_to_find_legal_move ?lost"
    by simp
  from loser_scores_zero [where g = ?lost and orc = "toy_rules 4"] white
  have lost: "result_and_scores (toy_rules 4) ?lost = (''0-1'', IntScore 0, IntScore 1)"
    by blast
  have "\<exists>path row. record_results (toy_rules 4) (scripted [Some ''a3''] model_config)
          (scripted [Some ''1-0''] engine_config) ?res ''1700000000-1234'' 3 = Inr (path, row)"
    by (simp add: record_results_def get_player_titles_and_time_def title_and_time_def
          scripted_def model_config_def engine_config_def split: prod.splits)
  then obtain path row where
    rec: "record_results (toy_rules 4) (scripted [Some ''a3''] model_config)
          (scripted [Some ''1-0''] engine_config) ?res ''1700000000-1234'' 3 = Inr (path, row)"
    by blast
  from loser_scores_zero [where g = ?res and orc = "toy_rules 4"
      and ?p1.0 = "scripted [Some ''a3''] model_config"
      and ?p2.0 = "scripted [Some ''1-0''] engine_config" and uid = "''1700000000-1234''"
      and tt = 3 and path = path and row = row] rec scored
  have "row_result row = ''1-0''" "row_player_one_score row = IntScore 1"
      "row_player_two_score row = IntScore 0"
    by simp_all
  with rec lost black scored show ?thesis by blast
qed

text \<open>
  The values of a row that is not marked indeterminate, when the results of the board
  that contain a dash are the three of chess.
\<close>

lemma result_and_scores_values:
  assumes "CHR ''-'' \<in> set (board_result orc (board g)) \<longrightarrow>
      board_result orc (board g) = ''1-0'' \<or> board_result orc (board g) = ''0-1''
      \<or> board_result orc (board g) = ''1/2-1/2''"
  and "result_and_scores orc g = (res, s1, s2)"
  and "s1 \<noteq> indeterminate \<or> s2 \<noteq> indeterminate"
  shows "(res = ''*'' \<longrightarrow> s1 = FloatScore (1 / 2) \<and> s2 = FloatScore (1 / 2))
       \<and> (res \<noteq> ''*'' \<longrightarrow> zero_sum s1 s2)"
  using assms
  by (auto simp: result_and_scores_def Let_def indeterminate_def zero_sum_def 
        rat_of_text_def split_sep_def nat_of_text_def digit_value_def split: if_splits)

text \<open>
  C4. In a row written by \<^verbatim>\<open>record_results\<close> whose scores are not the indeterminate
  pair, the two scores add up to 0 or to 1, except that with the result ``*'' (the game
  was cut at the move cap) both scores are exactly one half. The board is taken to
  answer a result with a dash only by ``1-0'', ``0-1'' or ``1/2-1/2''; the scores of
  such a result are the two pieces of the text, read as numbers.
\<close>

theorem record_results_score_invariant:
  assumes "record_results orc p1 p2 g uid tt = Inr (path, row)"
    and "CHR ''-'' \<in> set (board_result orc (board g)) \<longrightarrow>
      board_result orc (board g) = ''1-0'' \<or> board_result orc (board g) = ''0-1''
      \<or> board_result orc (board g) = ''1/2-1/2''"
    and "row_player_one_score row \<noteq> indeterminate \<or> row_player_two_score row \<noteq> indeterminate"
  shows "(row_result row = ''*'' \<longrightarrow>
            row_player_one_score row = FloatScore (1 / 2)
            \<and> row_player_two_score row = FloatScore (1 / 2))
       \<and> (row_result row \<noteq> ''*'' \<longrightarrow>
            zero_sum (row_player_one_score row) (row_player_two_score row))"
proof -
  obtain res s1 s2 where rs: "result_and_scores orc g = (res, s1, s2)"
    by (cases "result_and_scores orc g")
  with assms(1) have row: "row_result row = res" "row_player_one_score row = s1"
      "row_player_two_score row = s2"
    by (auto simp: record_results_def split: sum.splits prod.splits)
  from result_and_scores_values [OF assms(2) rs] assms(3) show ?thesis
    by (simp add: row)
qed

text \<open>Runs of C4: the row of the game that the board declares drawn, and the row of a
  game that the move cap has stopped.\<close>

theorem record_results_score_invariant_witness:
  "record_results (toy_rules 4) (scripted [] model_config) (scripted [] engine_config)
      drawn_game ''1700000000-1234'' 3
     = Inr (''logs/gpt-3_5-turbo-instruct_vs_stockfish_0.csv'', drawn_row)
   \<and> row_result drawn_row \<noteq> ''*''
   \<and> zero_sum (row_player_one_score drawn_row) (row_player_two_score drawn_row)
   \<and> (\<exists>path row.
        record_results (toy_rules 4) (scripted [] model_config) (scripted [] engine_config)
          capped_game ''1700000000-1235'' 3 = Inr (path, row)
        \<and> row_result row = ''*''
        \<and> row_player_one_score row = FloatScore (1 / 2)
        \<and> row_player_two_score row = FloatScore (1 / 2))"
proof -
  have run: "record_results (toy_rules 4) (scripted [] model_config) (scripted [] engine_config)
      drawn_game ''1700000000-1234'' 3
     = Inr (''logs/gpt-3_5-turbo-instruct_vs_stockfish_0.csv'', drawn_row)"
    by (simp add: record_results_def get_player_titles_and_time_def title_and_time_def
          scripted_def model_config_def engine_config_def result_and_scores_def toy_rules_def
          drawn_game_def new_game_def csv_file_path_def RUN_FOR_ANALYSIS_def split_sep_def
          drawn_row_def)
  have contract: "CHR ''-'' \<in> set (board_result (toy_rules 4) (board drawn_game)) \<longrightarrow>
      board_result (toy_rules 4) (board drawn_game) = ''1-0''
      \<or> board_result (toy_rules 4) (board drawn_game) = ''0-1''
      \<or> board_result (toy_rules 4) (board drawn_game) = ''1/2-1/2''"
    by (simp add: toy_rules_def drawn_game_def new_game_def)
  have marked: "row_player_one_score drawn_row \<noteq> indeterminate
      \<or> row_player_two_score drawn_row \<noteq> indeterminate"
    by (simp add: drawn_row_def indeterminate_def)
  have star: "row_result drawn_row \<noteq> ''*''"
    by (simp add: drawn_row_def)
  from record_results_score_invariant [OF run contract marked] star
  have drawn: "zero_sum (row_player_one_score drawn_row) (row_player_two_score drawn_row)"
    by blast
  have "\<exists>path row.
        record_results (toy_rules 4) (scripted [] model_config) (scripted [] engine_config)
          capped_game ''1700000000-1235'' 3 = Inr (path, row)
        \<and> row_result row = ''*'' \<and> row_player_one_score row \<noteq> indeterminate"
    by (simp add: record_results_def get_player_titles_and_time_def title_and_time_def
          scripted_def model_config_def engine_config_def result_and_scores_def toy_rules_def
          capped_game_def new_game_def indeterminate_def)
  then obtain path row where
    rec: "record_results (toy_rules 4) (scripted [] model_config) (scripted [] engine_config)
          capped_game ''1700000000-1235'' 3 = Inr (path, row)"
    and res: "row_result row = ''*''" and det: "row_player_one_score row \<noteq> indeterminate"
    by blast
  have contract2: "CHR ''-'' \<in> set (board_result (toy_rules 4) (board capped_game)) \<longrightarrow>
      board_result (toy_rules 4) (board capped_game) = ''1-0''
      \<or> board_result (toy_rules 4) (board capped_game) = ''0-1''
      \<or> board_result (toy_rules 4) (board capped_game) = ''1/2-1/2''"
    by (simp add: toy_rules_def capped_game_def new_game_def)
  from det have "row_player_one_score row \<noteq> indeterminate
      \<or> row_player_two_score row \<noteq> indeterminate"
    by simp
  from record_results_score_invariant [OF rec contract2 this] res
  have "row_player_one_score row = FloatScore (1 / 2)"
      "row_player_two_score row = FloatScore (1 / 2)"
    by simp_all
  with rec res run star drawn show ?thesis by blast
qed

subsection \<open>The counters of a round\<close>

lemma play_turn_cost:
  assumes "play_turn orc pl b gs player_one ps dg = Inr ((gs', res, failed, cost), b', ps', dg')"
  shows "\<exists>r. get_legal_move orc pl b gs player_one 5 ps dg = Inr (r, ps', dg')
           \<and> cost = attempts r \<and> res = is_resignation r \<and> failed = is_illegal_move r"
proof (cases "get_legal_move orc pl b gs player_one 5 ps dg")
  case (Inl e)
  with assms show ?thesis by (simp add: play_turn_def)
next
  case (Inr x)
  obtain r ps1 dg1 where x: "x = (r, ps1, dg1)" by (cases x)
  from assms show ?thesis
    unfolding play_turn_def Inr x
    by (cases "move_san r"; cases "move_uci r") (simp_all add: Let_def split: if_splits)
qed

lemma player_one_ply_counters:
  assumes "player_one_ply orc p1 g = Inr g1"
  shows "\<exists>r ps dg.
      get_legal_move orc p1 (board g) (game_state g) True 5
        (player_one_state g) (diagnostics g) = Inr (r, ps, dg)
      \<and> player_one_illegal_moves g1 = player_one_illegal_moves g + attempts r
      \<and> player_one_legal_moves g1 =
          player_one_legal_moves g - (if attempts r \<noteq> 0 then 1 else 0)
      \<and> player_two_legal_moves g1 = player_two_legal_moves g
      \<and> player_two_illegal_moves g1 = player_two_illegal_moves g"
proof (cases "play_turn orc p1 (board g) (game_state g) True (player_one_state g) (diagnostics g)")
  case (Inl e)
  with assms show ?thesis by (simp add: player_one_ply_def)
next
  case (Inr x)
  obtain gs' res failed cost b' ps' dg' where x: "x = ((gs', res, failed, cost), b', ps', dg')"
    by (cases x) auto
  from play_turn_cost [OF Inr [unfolded x]] obtain r where
    r: "get_legal_move orc p1 (board g) (game_state g) True 5
        (player_one_state g) (diagnostics g) = Inr (r, ps', dg')" "cost = attempts r"
    by blast
  from assms have "g1 = g\<lparr>board := b', game_state := gs',
                 player_one_resignation := res,
                 player_one_failed_to_find_legal_move := failed,
                 player_one_illegal_moves := player_one_illegal_moves g + cost,
                 player_one_legal_moves :=
                   (if cost \<noteq> 0 then player_one_legal_moves g - 1
                    else player_one_legal_moves g),
                 player_one_state := ps', diagnostics := dg'\<rparr>"
    by (simp add: player_one_ply_def Inr x)
  with r show ?thesis by simp
qed

lemma player_two_ply_counters:
  assumes "player_two_ply orc p2 g = Inr g2"
  shows "\<exists>r ps dg.
      get_legal_move orc p2 (board g) (game_state g) False 5
        (player_two_state g) (diagnostics g) = Inr (r, ps, dg)
      \<and> player_two_illegal_moves g2 = player_two_illegal_moves g + attempts r
      \<and> player_two_legal_moves g2 =
          player_two_legal_moves g - (if attempts r \<noteq> 0 then 1 else 0)
      \<and> player_one_legal_moves g2 = player_one_legal_moves g
      \<and> player_one_illegal_moves g2 = player_one_illegal_moves g"
proof (cases "play_turn orc p2 (board g) (game_state g) False (player_two_state g) (diagnostics g)")
  case (Inl e)
  with assms show ?thesis by (simp add: player_two_ply_def)
next
  case (Inr x)
  obtain gs' res failed cost b' ps' dg' where x: "x = ((gs', res, failed, cost), b', ps', dg')"
    by (cases x) auto
  from play_turn_cost [OF Inr [unfolded x]] obtain r where
    r: "get_legal_move orc p2 (board g) (game_state g) False 5
        (player_two_state g) (diagnostics g) = Inr (r, ps', dg')" "cost = attempts r"
    by blast
  from assms have "g2 = g\<lparr>board := b', game_state := gs',
                 player_two_resignation := res,
                 player_two_failed_to_find_legal_move := failed,
                 player_two_illegal_moves := player_two_illegal_moves g + cost,
                 player_two_legal_moves :=
                   (if cost \<noteq> 0 then player_two_legal_moves g - 1
                    else player_two_legal_moves g),
                 player_two_state := ps', diagnostics := dg'\<rparr>"
    by (simp add: player_two_ply_def Inr x)
  with r show ?thesis by simp
qed

lemma begin_round_fields:
  "board (begin_round orc g) = board g"
  "player_one_state (begin_round orc g) = player_one_state g"
  "player_two_state (begin_round orc g) = player_two_state g"
  "diagnostics (begin_round orc g) = diagnostics g"
  "player_one_legal_moves (begin_round orc g) = player_one_legal_moves g + 1"
  "player_two_legal_moves (begin_round orc g) = player_two_legal_moves g + 1"
  "player_one_illegal_moves (begin_round orc g) = player_one_illegal_moves g"
  "player_two_illegal_moves (begin_round orc g) = player_two_illegal_moves g"
  "total_moves (begin_round orc g) = total_moves g + 1"
  "player_one_resignation (begin_round orc g) = player_one_resignation g"
  "player_two_resignation (begin_round orc g) = player_two_resignation g"
  "player_one_failed_to_find_legal_move (begin_round orc g)
     = player_one_failed_to_find_legal_move g"
  "player_two_failed_to_find_legal_move (begin_round orc g)
     = player_two_failed_to_find_legal_move g"
  by (simp_all add: begin_round_def Let_def)

text \<open>
  C8. In a pass of the loop both sides' legal-move counters go up by one before player
  one's move is resolved. Player one's resolution adds its attempt count to player one's
  illegal-move counter and takes one off player one's legal-move counter when that count
  is not zero; it leaves player two's counters alone. Player two's resolution does the
  same to player two's counters and leaves player one's alone.
\<close>

theorem ply_bookkeeping:
  assumes "player_one_ply orc p1 (begin_round orc g) = Inr g1"
  shows "\<exists>r ps dg.
      get_legal_move orc p1 (board g) (game_state (begin_round orc g)) True 5
        (player_one_state g) (diagnostics g) = Inr (r, ps, dg)
      \<and> player_one_illegal_moves g1 = player_one_illegal_moves g + attempts r
      \<and> player_one_legal_moves g1 =
          player_one_legal_moves g + 1 - (if attempts r \<noteq> 0 then 1 else 0)
      \<and> player_two_legal_moves g1 = player_two_legal_moves g + 1
      \<and> player_two_illegal_moves g1 = player_two_illegal_moves g
      \<and> (\<forall>g2. player_two_ply orc p2 g1 = Inr g2 \<longrightarrow>
           (\<exists>r2 ps2 dg2.
              get_legal_move orc p2 (board g1) (game_state g1) False 5
                (player_two_state g1) (diagnostics g1) = Inr (r2, ps2, dg2)
              \<and> player_two_illegal_moves g2 = player_two_illegal_moves g + attempts r2
              \<and> player_two_legal_moves g2 =
                  player_two_legal_moves g + 1 - (if attempts r2 \<noteq> 0 then 1 else 0)
              \<and> player_one_illegal_moves g2 = player_one_illegal_moves g1
              \<and> player_one_legal_moves g2 = player_one_legal_moves g1))"
proof -
  from player_one_ply_counters [OF assms] obtain r ps dg where
    one: "get_legal_move orc p1 (board g) (game_state (begin_round orc g)) True 5
        (player_one_state g) (diagnostics g) = Inr (r, ps, dg)"
      "player_one_illegal_moves g1 = player_one_illegal_moves g + attempts r"
      "player_one_legal_moves g1 =
          player_one_legal_moves g + 1 - (if attempts r \<noteq> 0 then 1 else 0)"
      "player_two_legal_moves g1 = player_two_legal_moves g + 1"
      "player_two_illegal_moves g1 = player_two_illegal_moves g"
    by (auto simp: begin_round_fields)
  have two: "\<exists>r2 ps2 dg2.
              get_legal_move orc p2 (board g1) (game_state g1) False 5
                (player_two_state g1) (diagnostics g1) = Inr (r2, ps2, dg2)
              \<and> player_two_illegal_moves g2 = player_two_illegal_moves g + attempts r2
              \<and> player_two_legal_moves g2 =
                  player_two_legal_moves g + 1 - (if attempts r2 \<noteq> 0 then 1 else 0)
              \<and> player_one_illegal_moves g2 = player_one_illegal_moves g1
              \<and> player_one_legal_moves g2 = player_one_legal_moves g1"
    if "player_two_ply orc p2 g1 = Inr g2" for g2
    using player_two_ply_counters [OF that] one(4,5) by auto
  from one two show ?thesis by blast
qed

text \<open>
  A run of C8: White needs a second attempt, so its cost is 1 and its legal-move counter
  is back at 0, while Black's stands at 1. Black then moves at its first attempt: its
  cost is 0, its counter stays at 1, and White's counters are as they were.
\<close>

theorem ply_bookkeeping_witness:
  "player_one_ply (toy_rules 4) (scripted [Some ''Qh5'', Some ''a3''] model_config)
     (begin_round (toy_rules 4) opening_game)
   = Inr (opening_game\<lparr>board := [0], game_state := ''1. a3'', total_moves := 1,
            player_one_illegal_moves := 1, player_one_legal_moves := 0,
            player_two_legal_moves := 1, player_one_state := 2\<rparr>)
   \<and> (\<exists>r ps dg.
        get_legal_move (toy_rules 4) (scripted [Some ''Qh5'', Some ''a3''] model_config)
          (board opening_game) (game_state (begin_round (toy_rules 4) opening_game)) True 5
          (player_one_state opening_game) (diagnostics opening_game) = Inr (r, ps, dg)
        \<and> attempts r = 1)
   \<and> (\<exists>g2 r2 ps2 dg2.
        player_two_ply (toy_rules 4) (scripted [Some ''a4''] engine_config)
          (opening_game\<lparr>board := [0], game_state := ''1. a3'', total_moves := 1,
            player_one_illegal_moves := 1, player_one_legal_moves := 0,
            player_two_legal_moves := 1, player_one_state := 2\<rparr>) = Inr g2
        \<and> get_legal_move (toy_rules 4) (scripted [Some ''a4''] engine_config)
              [0] ''1. a3'' False 5 0 [] = Inr (r2, ps2, dg2)
        \<and> attempts r2 = 0
        \<and> player_two_illegal_moves g2 = 0 \<and> player_two_legal_moves g2 = 1
        \<and> player_one_illegal_moves g2 = 1 \<and> player_one_legal_moves g2 = 0)"
proof -
  let ?g1 = "opening_game\<lparr>board := [0], game_state := ''1. a3'', total_moves := 1,
            player_one_illegal_moves := 1, player_one_legal_moves := 0,
            player_two_legal_moves := 1, player_one_state := 2\<rparr>"
  have run: "player_one_ply (toy_rules 4) (scripted [Some ''Qh5'', Some ''a3''] model_config)
     (begin_round (toy_rules 4) opening_game) = Inr ?g1"
    by (simp add: toy_simps)
  have "\<exists>g2. player_two_ply (toy_rules 4) (scripted [Some ''a4''] engine_config) ?g1 = Inr g2"
    by (simp add: toy_simps)
  then obtain g2 where
    run2: "player_two_ply (toy_rules 4) (scripted [Some ''a4''] engine_config) ?g1 = Inr g2"
    by blast
  from ply_bookkeeping [OF run, of "scripted [Some ''a4''] engine_config"] run2
  obtain r ps dg r2 ps2 dg2 where
    one: "get_legal_move (toy_rules 4) (scripted [Some ''Qh5'', Some ''a3''] model_config)
          (board opening_game) (game_state (begin_round (toy_rules 4) opening_game)) True 5
          (player_one_state opening_game) (diagnostics opening_game) = Inr (r, ps, dg)"
    and c1: "player_one_illegal_moves ?g1 = player_one_illegal_moves opening_game + attempts r"
    and two: "get_legal_move (toy_rules 4) (scripted [Some ''a4''] engine_config)
          (board ?g1) (game_state ?g1) False 5 (player_two_state ?g1) (diagnostics ?g1)
          = Inr (r2, ps2, dg2)"
    and c2: "player_two_illegal_moves g2 = player_two_illegal_moves opening_game + attempts r2"
      "player_two_legal_moves g2 =
         player_two_legal_moves opening_game + 1 - (if attempts r2 \<noteq> 0 then 1 else 0)"
      "player_one_illegal_moves g2 = player_one_illegal_moves ?g1"
      "player_one_legal_moves g2 = player_one_legal_moves ?g1"
    by blast
  from c1 have a1: "attempts r = 1"
    by (simp add: opening_game_def new_game_def)
  from two have two': "get_legal_move (toy_rules 4) (scripted [Some ''a4''] engine_config)
              [0] ''1. a3'' False 5 0 [] = Inr (r2, ps2, dg2)"
    by (simp add: opening_game_def new_game_def)
  then have a2: "attempts r2 = 0"
    by (auto simp: toy_simps)
  with c2 have "player_two_illegal_moves g2 = 0" "player_two_legal_moves g2 = 1"
      "player_one_illegal_moves g2 = 1" "player_one_legal_moves g2 = 0"
    by (simp_all add: opening_game_def new_game_def)
  with run one a1 run2 two' a2 show ?thesis by blast
qed

subsection \<open>One pass of the game loop\<close>

text \<open>The five ways through the loop body, and the induction over a finished game
  that they give.\<close>

lemma game_loop_over:
  "board_is_game_over orc (board g) \<Longrightarrow> game_loop orc p1 p2 g = Inr g"
  by (simp add: game_loop.simps [of orc p1 p2 g])

lemma game_loop_stop_one:
  assumes "\<not> board_is_game_over orc (board g)"
    and "player_one_ply orc p1 (begin_round orc g) = Inr g1"
    and "stops_after_one orc g1"
  shows "game_loop orc p1 p2 g = Inr g1"
  using assms by (simp add: game_loop.simps [of orc p1 p2 g] stops_after_one_def)

lemma game_loop_stop_two:
  assumes "\<not> board_is_game_over orc (board g)"
    and "player_one_ply orc p1 (begin_round orc g) = Inr g1"
    and "\<not> stops_after_one orc g1"
    and "player_two_ply orc p2 g1 = Inr g2"
    and "stops_after_two orc g2"
  shows "game_loop orc p1 p2 g = Inr g2"
  using assms
  by (simp add: game_loop.simps [of orc p1 p2 g] stops_after_one_def stops_after_two_def)

lemma game_loop_cap:
  assumes "\<not> board_is_game_over orc (board g)"
    and "player_one_ply orc p1 (begin_round orc g) = Inr g1"
    and "\<not> stops_after_one orc g1"
    and "player_two_ply orc p2 g1 = Inr g2"
    and "\<not> stops_after_two orc g2"
    and "total_moves g2 > MAX_MOVES"
  shows "game_loop orc p1 p2 g = Inr g2"
  using assms
  by (simp add: game_loop.simps [of orc p1 p2 g] stops_after_one_def stops_after_two_def)

lemma game_loop_again:
  assumes "\<not> board_is_game_over orc (board g)"
    and "player_one_ply orc p1 (begin_round orc g) = Inr g1"
    and "\<not> stops_after_one orc g1"
    and "player_two_ply orc p2 g1 = Inr g2"
    and "\<not> stops_after_two orc g2"
    and "\<not> total_moves g2 > MAX_MOVES"
  shows "game_loop orc p1 p2 g = game_loop orc p1 p2 g2"
  using assms
  by (simp add: game_loop.simps [of orc p1 p2 g] stops_after_one_def stops_after_two_def)

lemma player_one_ply_total_moves:
  "player_one_ply orc p1 g = Inr g' \<Longrightarrow> total_moves g' = total_moves g"
  by (auto simp: player_one_ply_def split: sum.splits prod.splits)

lemma player_two_ply_total_moves:
  "player_two_ply orc p2 g = Inr g' \<Longrightarrow> total_moves g' = total_moves g"
  by (auto simp: player_two_ply_def split: sum.splits prod.splits)

lemma game_loop_result_induct [consumes 1, case_names over one two cap again]:
  assumes ret: "game_loop orc p1 p2 g = Inr g'"
    and over: "\<And>g. board_is_game_over orc (board g) \<Longrightarrow> P g g"
    and one: "\<And>g g1. \<not> board_is_game_over orc (board g) \<Longrightarrow>
        player_one_ply orc p1 (begin_round orc g) = Inr g1 \<Longrightarrow> stops_after_one orc g1 \<Longrightarrow> P g g1"
    and two: "\<And>g g1 g2. \<not> board_is_game_over orc (board g) \<Longrightarrow>
        player_one_ply orc p1 (begin_round orc g) = Inr g1 \<Longrightarrow> \<not> stops_after_one orc g1 \<Longrightarrow>
        player_two_ply orc p2 g1 = Inr g2 \<Longrightarrow> stops_after_two orc g2 \<Longrightarrow> P g g2"
    and cap: "\<And>g g1 g2. \<not> board_is_game_over orc (board g) \<Longrightarrow>
        player_one_ply orc p1 (begin_round orc g) = Inr g1 \<Longrightarrow> \<not> stops_after_one orc g1 \<Longrightarrow>
        player_two_ply orc p2 g1 = Inr g2 \<Longrightarrow> \<not> stops_after_two orc g2 \<Longrightarrow>
        total_moves g2 > MAX_MOVES \<Longrightarrow> P g g2"
    and again: "\<And>g g1 g2. \<not> board_is_game_over orc (board g) \<Longrightarrow>
        player_one_ply orc p1 (begin_round orc g) = Inr g1 \<Longrightarrow> \<not> stops_after_one orc g1 \<Longrightarrow>
        player_two_ply orc p2 g1 = Inr g2 \<Longrightarrow> \<not> stops_after_two orc g2 \<Longrightarrow>
        \<not> total_moves g2 > MAX_MOVES \<Longrightarrow> game_loop orc p1 p2 g2 = Inr g' \<Longrightarrow>
        P g2 g' \<Longrightarrow> P g g'"
  shows "P g g'"
  using ret
proof (induction "nat (MAX_MOVES + 1 - total_moves g)" arbitrary: g rule: less_induct)
  case less
  note ret = less.prems
  show ?case
  proof (cases "board_is_game_over orc (board g)")
    case True
    with ret over [of g] show ?thesis by (simp add: game_loop_over)
  next
    case running: False
    show ?thesis
    proof (cases "player_one_ply orc p1 (begin_round orc g)")
      case (Inl e)
      with ret running show ?thesis by (simp add: game_loop.simps [of orc p1 p2 g])
    next
      case g1: (Inr g1)
      show ?thesis
      proof (cases "stops_after_one orc g1")
        case True
        with ret one [OF running g1] game_loop_stop_one [OF running g1] show ?thesis by simp
      next
        case on1: False
        show ?thesis
        proof (cases "player_two_ply orc p2 g1")
          case (Inl e)
          with ret running g1 on1 show ?thesis
            by (simp add: game_loop.simps [of orc p1 p2 g] stops_after_one_def)
        next
          case g2: (Inr g2)
          show ?thesis
          proof (cases "stops_after_two orc g2")
            case True
            with ret two [OF running g1 on1 g2] game_loop_stop_two [OF running g1 on1 g2]
            show ?thesis by simp
          next
            case on2: False
            show ?thesis
            proof (cases "total_moves g2 > MAX_MOVES")
              case True
              with ret cap [OF running g1 on1 g2 on2] game_loop_cap [OF running g1 on1 g2 on2]
              show ?thesis by simp
            next
              case False
              from ret game_loop_again [OF running g1 on1 g2 on2 False]
              have ret2: "game_loop orc p1 p2 g2 = Inr g'" by simp
              have "total_moves g2 = total_moves g + 1"
                using player_one_ply_total_moves [OF g1] player_two_ply_total_moves [OF g2]
                by (simp add: begin_round_def Let_def)
              with False have "nat (MAX_MOVES + 1 - total_moves g2)
                  < nat (MAX_MOVES + 1 - total_moves g)"
                by simp
              then have "P g2 g'" using ret2 by (rule less.hyps)
              with again [OF running g1 on1 g2 on2 False ret2] show ?thesis by blast
            qed
          qed
        qed
      qed
    qed
  qed
qed

subsection \<open>The move cap\<close>

lemma game_loop_total_moves:
  assumes "game_loop orc p1 p2 g = Inr g'" and "total_moves g \<le> MAX_MOVES"
  shows "total_moves g \<le> total_moves g' \<and> total_moves g' \<le> MAX_MOVES + 1
    \<and> (board_is_game_over orc (board g') \<or> player_one_resignation g'
        \<or> player_one_failed_to_find_legal_move g' \<or> player_two_resignation g'
        \<or> player_two_failed_to_find_legal_move g' \<or> total_moves g' = MAX_MOVES + 1)"
  using assms
proof (induction rule: game_loop_result_induct)
  case (over g)
  then show ?case by simp
next
  case (one g g1)
  then show ?case
    using player_one_ply_total_moves [of orc p1 "begin_round orc g" g1]
    by (auto simp: begin_round_def Let_def stops_after_one_def)
next
  case (two g g1 g2)
  then show ?case
    using player_one_ply_total_moves [of orc p1 "begin_round orc g" g1]
      player_two_ply_total_moves [of orc p2 g1 g2]
    by (auto simp: begin_round_def Let_def stops_after_two_def)
next
  case (cap g g1 g2)
  then show ?case
    using player_one_ply_total_moves [of orc p1 "begin_round orc g" g1]
      player_two_ply_total_moves [of orc p2 g1 g2]
    by (auto simp: begin_round_def Let_def)
next
  case (again g g1 g2)
  then show ?case
    using player_one_ply_total_moves [of orc p1 "begin_round orc g" g1]
      player_two_ply_total_moves [of orc p2 g1 g2]
    by (auto simp: begin_round_def Let_def)
qed

text \<open>
  C5, as the code has it. \<^verbatim>\<open>total_moves\<close> counts the passes of the loop, one for
  each pair of half-moves, not the half-moves. A game that starts below the cap ends
  with \<^verbatim>\<open>total_moves\<close> at most \<^verbatim>\<open>MAX_MOVES + 1\<close>, and it ends because the board is
  over, a side resigned or ran out of attempts, or the count has reached
  \<^verbatim>\<open>MAX_MOVES + 1\<close>. Within a pass, the end of the game, resignation and exhaustion
  are tested after each half-move; the cap is tested once, after player two's half-move,
  and a pass that ends without any of these is followed by another.
\<close>

theorem game_loop_move_cap:
  "(game_loop orc p1 p2 g = Inr g' \<and> total_moves g \<le> MAX_MOVES \<longrightarrow>
      total_moves g \<le> total_moves g' \<and> total_moves g' \<le> MAX_MOVES + 1
      \<and> (board_is_game_over orc (board g') \<or> player_one_resignation g'
          \<or> player_one_failed_to_find_legal_move g' \<or> player_two_resignation g'
          \<or> player_two_failed_to_find_legal_move g' \<or> total_moves g' = MAX_MOVES + 1))
   \<and> (\<not> board_is_game_over orc (board g)
        \<and> player_one_ply orc p1 (begin_round orc g) = Inr g1 \<longrightarrow>
      total_moves g1 = total_moves g + 1
      \<and> (stops_after_one orc g1 \<longrightarrow> game_loop orc p1 p2 g = Inr g1)
      \<and> (\<not> stops_after_one orc g1 \<and> player_two_ply orc p2 g1 = Inr g2 \<longrightarrow>
           total_moves g2 = total_moves g + 1
           \<and> (stops_after_two orc g2 \<or> total_moves g2 > MAX_MOVES \<longrightarrow>
                 game_loop orc p1 p2 g = Inr g2)
           \<and> (\<not> stops_after_two orc g2 \<and> \<not> total_moves g2 > MAX_MOVES \<longrightarrow>
                 game_loop orc p1 p2 g = game_loop orc p1 p2 g2)))"
proof (intro conjI impI)
  assume "game_loop orc p1 p2 g = Inr g' \<and> total_moves g \<le> MAX_MOVES"
  then have a: "total_moves g \<le> total_moves g' \<and> total_moves g' \<le> MAX_MOVES + 1
    \<and> (board_is_game_over orc (board g') \<or> player_one_resignation g'
        \<or> player_one_failed_to_find_legal_move g' \<or> player_two_resignation g'
        \<or> player_two_failed_to_find_legal_move g' \<or> total_moves g' = MAX_MOVES + 1)"
    using game_loop_total_moves [of orc p1 p2 g g'] by blast
  from a show "total_moves g \<le> total_moves g'" by simp
  from a show "total_moves g' \<le> MAX_MOVES + 1" by simp
  from a show "board_is_game_over orc (board g') \<or> player_one_resignation g'
        \<or> player_one_failed_to_find_legal_move g' \<or> player_two_resignation g'
        \<or> player_two_failed_to_find_legal_move g' \<or> total_moves g' = MAX_MOVES + 1"
    by simp
next
  assume a: "\<not> board_is_game_over orc (board g)
        \<and> player_one_ply orc p1 (begin_round orc g) = Inr g1"
  then have run: "\<not> board_is_game_over orc (board g)"
    and g1: "player_one_ply orc p1 (begin_round orc g) = Inr g1"
    by simp_all
  show t1: "total_moves g1 = total_moves g + 1"
    using player_one_ply_total_moves [OF g1] by (simp add: begin_round_def Let_def)
  show "game_loop orc p1 p2 g = Inr g1" if "stops_after_one orc g1"
    using game_loop_stop_one [OF run g1 that] .
  {
    assume b: "\<not> stops_after_one orc g1 \<and> player_two_ply orc p2 g1 = Inr g2"
    then have on1: "\<not> stops_after_one orc g1" and g2: "player_two_ply orc p2 g1 = Inr g2"
      by simp_all
    show "total_moves g2 = total_moves g + 1"
      using player_two_ply_total_moves [OF g2] t1 by simp
    show "game_loop orc p1 p2 g = Inr g2"
      if "stops_after_two orc g2 \<or> total_moves g2 > MAX_MOVES"
      using that game_loop_stop_two [OF run g1 on1 g2] game_loop_cap [OF run g1 on1 g2]
      by blast
    show "game_loop orc p1 p2 g = game_loop orc p1 p2 g2"
      if "\<not> stops_after_two orc g2 \<and> \<not> total_moves g2 > MAX_MOVES"
      using that game_loop_again [OF run g1 on1 g2] by blast
  }
qed

text \<open>Runs of C5: both sides play legal moves until the board ends the game after
  two passes; White resigns in the first half-move; Black resigns in the second; a pass
  takes the count to 90 and the cap ends the game; a first pass is followed by a
  second.\<close>

theorem game_loop_move_cap_witness:
  "game_loop (toy_rules 4) (scripted [Some ''a3'', Some ''a4''] model_config)
      (scripted [Some ''a4'', Some ''a3''] engine_config) opening_game = Inr drawn_final
   \<and> total_moves opening_game \<le> MAX_MOVES
   \<and> total_moves drawn_final \<le> MAX_MOVES + 1
   \<and> board_is_game_over (toy_rules 4) (board drawn_final)
   \<and> (\<exists>g1. player_one_ply (toy_rules 4) (scripted [Some ''1-0''] model_config)
              (begin_round (toy_rules 4) opening_game) = Inr g1
         \<and> stops_after_one (toy_rules 4) g1 \<and> total_moves g1 = 1
         \<and> game_loop (toy_rules 4) (scripted [Some ''1-0''] model_config)
              (scripted [Some ''a4''] engine_config) opening_game = Inr g1)
   \<and> (\<exists>g1 g2. player_one_ply (toy_rules 4) (scripted [Some ''a3''] model_config)
              (begin_round (toy_rules 4) opening_game) = Inr g1
         \<and> \<not> stops_after_one (toy_rules 4) g1
         \<and> player_two_ply (toy_rules 4) (scripted [Some ''0-1''] engine_config) g1 = Inr g2
         \<and> stops_after_two (toy_rules 4) g2 \<and> total_moves g2 = 1
         \<and> game_loop (toy_rules 4) (scripted [Some ''a3''] model_config)
              (scripted [Some ''0-1''] engine_config) opening_game = Inr g2)
   \<and> (\<exists>g1 g2. player_one_ply (toy_rules 4) (scripted [Some ''a3''] model_config)
              (begin_round (toy_rules 4) (opening_game\<lparr>total_moves := 89\<rparr>)) = Inr g1
         \<and> \<not> stops_after_one (toy_rules 4) g1
         \<and> player_two_ply (toy_rules 4) (scripted [Some ''a4''] engine_config) g1 = Inr g2
         \<and> \<not> stops_after_two (toy_rules 4) g2 \<and> total_moves g2 = 90
         \<and> game_loop (toy_rules 4) (scripted [Some ''a3''] model_config)
              (scripted [Some ''a4''] engine_config) (opening_game\<lparr>total_moves := 89\<rparr>)
            = Inr g2)
   \<and> (\<exists>g1 g2. player_one_ply (toy_rules 4) (scripted [Some ''a3'', Some ''a4''] model_config)
              (begin_round (toy_rules 4) opening_game) = Inr g1
         \<and> \<not> stops_after_one (toy_rules 4) g1
         \<and> player_two_ply (toy_rules 4) (scripted [Some ''a4'', Some ''a3''] engine_config) g1
              = Inr g2
         \<and> \<not> stops_after_two (toy_rules 4) g2 \<and> \<not> total_moves g2 > MAX_MOVES
         \<and> game_loop (toy_rules 4) (scripted [Some ''a3'', Some ''a4''] model_config)
              (scripted [Some ''a4'', Some ''a3''] engine_config) opening_game
            = game_loop (toy_rules 4) (scripted [Some ''a3'', Some ''a4''] model_config)
              (scripted [Some ''a4'', Some ''a3''] engine_config) g2)"
proof -
  note cap_simps = toy_simps stops_after_one_def stops_after_two_def MAX_MOVES_def NANOGPT_def
  have run: "game_loop (toy_rules 4) (scripted [Some ''a3'', Some ''a4''] model_config)
      (scripted [Some ''a4'', Some ''a3''] engine_config) opening_game = Inr drawn_final"
    by (simp add: toy_simps game_loop.simps MAX_MOVES_def NANOGPT_def drawn_final_def)
  have start: "total_moves opening_game \<le> MAX_MOVES"
    by (simp add: opening_game_def new_game_def MAX_MOVES_def NANOGPT_def)
  have over: "board_is_game_over (toy_rules 4) (board drawn_final)"
    by (simp add: drawn_final_def toy_rules_def)
  have going: "\<not> board_is_game_over (toy_rules 4) (board opening_game)"
    "\<not> board_is_game_over (toy_rules 4) (board (opening_game\<lparr>total_moves := 89\<rparr>))"
    by (simp_all add: opening_game_def new_game_def toy_rules_def)
  from game_loop_move_cap [where orc = "toy_rules 4" and g = opening_game and g' = drawn_final
      and ?p1.0 = "scripted [Some ''a3'', Some ''a4''] model_config"
      and ?p2.0 = "scripted [Some ''a4'', Some ''a3''] engine_config"] run start
  have whole: "total_moves drawn_final \<le> MAX_MOVES + 1"
    by blast
  have A: "\<exists>g1. player_one_ply (toy_rules 4) (scripted [Some ''1-0''] model_config)
              (begin_round (toy_rules 4) opening_game) = Inr g1
         \<and> stops_after_one (toy_rules 4) g1 \<and> total_moves g1 = 1
         \<and> game_loop (toy_rules 4) (scripted [Some ''1-0''] model_config)
              (scripted [Some ''a4''] engine_config) opening_game = Inr g1"
  proof -
    have "\<exists>g1. player_one_ply (toy_rules 4) (scripted [Some ''1-0''] model_config)
              (begin_round (toy_rules 4) opening_game) = Inr g1
         \<and> stops_after_one (toy_rules 4) g1"
      by (simp add: cap_simps)
    then obtain g1 where g1: "player_one_ply (toy_rules 4) (scripted [Some ''1-0''] model_config)
              (begin_round (toy_rules 4) opening_game) = Inr g1"
      "stops_after_one (toy_rules 4) g1"
      by blast
    from game_loop_move_cap [where orc = "toy_rules 4" and g = opening_game and ?g1.0 = g1
      and ?p1.0 = "scripted [Some ''1-0''] model_config"
      and ?p2.0 = "scripted [Some ''a4''] engine_config"] going(1) g1
    have "total_moves g1 = total_moves opening_game + 1"
      "game_loop (toy_rules 4) (scripted [Some ''1-0''] model_config)
              (scripted [Some ''a4''] engine_config) opening_game = Inr g1"
      by simp_all
    with g1 show ?thesis by (auto simp: opening_game_def new_game_def)
  qed
  have B: "\<exists>g1 g2. player_one_ply (toy_rules 4) (scripted [Some ''a3''] model_config)
              (begin_round (toy_rules 4) opening_game) = Inr g1
         \<and> \<not> stops_after_one (toy_rules 4) g1
         \<and> player_two_ply (toy_rules 4) (scripted [Some ''0-1''] engine_config) g1 = Inr g2
         \<and> stops_after_two (toy_rules 4) g2 \<and> total_moves g2 = 1
         \<and> game_loop (toy_rules 4) (scripted [Some ''a3''] model_config)
              (scripted [Some ''0-1''] engine_config) opening_game = Inr g2"
  proof -
    have "\<exists>g1 g2. player_one_ply (toy_rules 4) (scripted [Some ''a3''] model_config)
              (begin_round (toy_rules 4) opening_game) = Inr g1
         \<and> \<not> stops_after_one (toy_rules 4) g1
         \<and> player_two_ply (toy_rules 4) (scripted [Some ''0-1''] engine_config) g1 = Inr g2
         \<and> stops_after_two (toy_rules 4) g2"
      by (simp add: cap_simps)
    then obtain g1 g2 where g: "player_one_ply (toy_rules 4) (scripted [Some ''a3''] model_config)
              (begin_round (toy_rules 4) opening_game) = Inr g1"
      "\<not> stops_after_one (toy_rules 4) g1"
      "player_two_ply (toy_rules 4) (scripted [Some ''0-1''] engine_config) g1 = Inr g2"
      "stops_after_two (toy_rules 4) g2"
      by blast
    from game_loop_move_cap [where orc = "toy_rules 4" and g = opening_game and ?g1.0 = g1
      and ?g2.0 = g2 and ?p1.0 = "scripted [Some ''a3''] model_config"
      and ?p2.0 = "scripted [Some ''0-1''] engine_config"] going(1) g
    have "total_moves g2 = total_moves opening_game + 1"
      "game_loop (toy_rules 4) (scripted [Some ''a3''] model_config)
              (scripted [Some ''0-1''] engine_config) opening_game = Inr g2"
      by simp_all
    with g show ?thesis by (auto simp: opening_game_def new_game_def)
  qed
  have C: "\<exists>g1 g2. player_one_ply (toy_rules 4) (scripted [Some ''a3''] model_config)
              (begin_round (toy_rules 4) (opening_game\<lparr>total_moves := 89\<rparr>)) = Inr g1
         \<and> \<not> stops_after_one (toy_rules 4) g1
         \<and> player_two_ply (toy_rules 4) (scripted [Some ''a4''] engine_config) g1 = Inr g2
         \<and> \<not> stops_after_two (toy_rules 4) g2 \<and> total_moves g2 = 90
         \<and> game_loop (toy_rules 4) (scripted [Some ''a3''] model_config)
              (scripted [Some ''a4''] engine_config) (opening_game\<lparr>total_moves := 89\<rparr>)
            = Inr g2"
  proof -
    have "\<exists>g1 g2. player_one_ply (toy_rules 4) (scripted [Some ''a3''] model_config)
              (begin_round (toy_rules 4) (opening_game\<lparr>total_moves := 89\<rparr>)) = Inr g1
         \<and> \<not> stops_after_one (toy_rules 4) g1
         \<and> player_two_ply (toy_rules 4) (scripted [Some ''a4''] engine_config) g1 = Inr g2
         \<and> \<not> stops_after_two (toy_rules 4) g2"
      by (simp add: cap_simps)
    then obtain g1 g2 where g: "player_one_ply (toy_rules 4) (scripted [Some ''a3''] model_config)
              (begin_round (toy_rules 4) (opening_game\<lparr>total_moves := 89\<rparr>)) = Inr g1"
      "\<not> stops_after_one (toy_rules 4) g1"
      "player_two_ply (toy_rules 4) (scripted [Some ''a4''] engine_config) g1 = Inr g2"
      "\<not> stops_after_two (toy_rules 4) g2"
      by blast
    from game_loop_move_cap [where orc = "toy_rules 4"
      and g = "opening_game\<lparr>total_moves := 89\<rparr>" and ?g1.0 = g1
      and ?g2.0 = g2 and ?p1.0 = "scripted [Some ''a3''] model_config"
      and ?p2.0 = "scripted [Some ''a4''] engine_config"] going(2) g
    have t: "total_moves g2 = total_moves (opening_game\<lparr>total_moves := 89\<rparr>) + 1"
      and l: "stops_after_two (toy_rules 4) g2 \<or> total_moves g2 > MAX_MOVES \<longrightarrow>
        game_loop (toy_rules 4) (scripted [Some ''a3''] model_config)
              (scripted [Some ''a4''] engine_config) (opening_game\<lparr>total_moves := 89\<rparr>)
          = Inr g2"
      by simp_all
    from t have "total_moves g2 = 90" by simp
    with l g show ?thesis by (auto simp: MAX_MOVES_def NANOGPT_def)
  qed
  have D: "\<exists>g1 g2. player_one_ply (toy_rules 4) (scripted [Some ''a3'', Some ''a4''] model_config)
              (begin_round (toy_rules 4) opening_game) = Inr g1
         \<and> \<not> stops_after_one (toy_rules 4) g1
         \<and> player_two_ply (toy_rules 4) (scripted [Some ''a4'', Some ''a3''] engine_config) g1
              = Inr g2
         \<and> \<not> stops_after_two (toy_rules 4) g2 \<and> \<not> total_moves g2 > MAX_MOVES
         \<and> game_loop (toy_rules 4) (scripted [Some ''a3'', Some ''a4''] model_config)
              (scripted [Some ''a4'', Some ''a3''] engine_config) opening_game
            = game_loop (toy_rules 4) (scripted [Some ''a3'', Some ''a4''] model_config)
              (scripted [Some ''a4'', Some ''a3''] engine_config) g2"
  proof -
    have "\<exists>g1 g2. player_one_ply (toy_rules 4) (scripted [Some ''a3'', Some ''a4''] model_config)
              (begin_round (toy_rules 4) opening_game) = Inr g1
         \<and> \<not> stops_after_one (toy_rules 4) g1
         \<and> player_two_ply (toy_rules 4) (scripted [Some ''a4'', Some ''a3''] engine_config) g1
              = Inr g2
         \<and> \<not> stops_after_two (toy_rules 4) g2 \<and> \<not> total_moves g2 > MAX_MOVES"
      by (simp add: cap_simps)
    then obtain g1 g2 where
      g: "player_one_ply (toy_rules 4) (scripted [Some ''a3'', Some ''a4''] model_config)
              (begin_round (toy_rules 4) opening_game) = Inr g1"
      "\<not> stops_after_one (toy_rules 4) g1"
      "player_two_ply (toy_rules 4) (scripted [Some ''a4'', Some ''a3''] engine_config) g1
              = Inr g2"
      "\<not> stops_after_two (toy_rules 4) g2" "\<not> total_moves g2 > MAX_MOVES"
      by blast
    from game_loop_move_cap [where orc = "toy_rules 4" and g = opening_game and ?g1.0 = g1
      and ?g2.0 = g2 and ?p1.0 = "scripted [Some ''a3'', Some ''a4''] model_config"
      and ?p2.0 = "scripted [Some ''a4'', Some ''a3''] engine_config"] going(1) g
    have "game_loop (toy_rules 4) (scripted [Some ''a3'', Some ''a4''] model_config)
              (scripted [Some ''a4'', Some ''a3''] engine_config) opening_game
            = game_loop (toy_rules 4) (scripted [Some ''a3'', Some ''a4''] model_config)
              (scripted [Some ''a4'', Some ''a3''] engine_config) g2"
      by simp
    with g show ?thesis by blast
  qed
  from run start whole over A B C D show ?thesis by (intro conjI)
qed

text \<open>
  On the small board two agents that always answer ``a3'' play a full pass whenever
  two more plies fit, so a game that is never over runs until the count of passes
  exceeds the cap.
\<close>

lemma toy_play_turn:
  assumes "length b < n"
  shows "play_turn (toy_rules n) (repeating (Some ''a3'') cfg) b gs player_one ps dg
         = Inr ((gs @ '' a3'', False, False, 0), b @ [0], Suc ps, dg)"
  using assms
  by (simp add: play_turn_def get_legal_move_def attempt_loop.simps [of _ _ _ _ 5 0]
        repeating_def toy_rules_def try_parse_san_def startswith_space_def)

lemma toy_round:
  assumes "length (board g) + 2 < n"
  shows "\<exists>g1 g2. player_one_ply (toy_rules n) (repeating (Some ''a3'') c1) (begin_round (toy_rules n) g) = Inr g1
     \<and> \<not> stops_after_one (toy_rules n) g1
     \<and> player_two_ply (toy_rules n) (repeating (Some ''a3'') c2) g1 = Inr g2
     \<and> \<not> stops_after_two (toy_rules n) g2
     \<and> board g2 = board g @ [0, 0] \<and> total_moves g2 = total_moves g + 1
     \<and> \<not> player_one_resignation g2 \<and> \<not> player_one_failed_to_find_legal_move g2
     \<and> \<not> player_two_resignation g2 \<and> \<not> player_two_failed_to_find_legal_move g2"
proof -
  from assms have l1: "length (board g) < n" and l2: "length (board g @ [0]) < n"
    by simp_all
  have b: "board (begin_round (toy_rules n) g) = board g"
    by (simp add: begin_round_def Let_def)
  show ?thesis
    using assms
    by (simp add: player_one_ply_def player_two_ply_def b toy_play_turn [OF l1]
          toy_play_turn [OF l2] stops_after_one_def stops_after_two_def)
       (simp add: toy_rules_def begin_round_def Let_def)
qed

lemma toy_endless:
  assumes "m = nat (MAX_MOVES - total_moves g)" and "total_moves g \<le> MAX_MOVES"
    and "length (board g) + 2 * (m + 1) < n"
  shows "game_summary (game_loop (toy_rules n) (repeating (Some ''a3'') c1)
            (repeating (Some ''a3'') c2) g)
         = Some (length (board g) + 2 * (m + 1), MAX_MOVES + 1, False)"
  using assms
proof (induction m arbitrary: g)
  case 0
  then have len: "length (board g) + 2 < n" and tm: "total_moves g = MAX_MOVES" by simp_all
  from toy_round [OF len, of c1 c2] obtain g1 g2 where
    r: "player_one_ply (toy_rules n) (repeating (Some ''a3'') c1) (begin_round (toy_rules n) g) = Inr g1"
     "\<not> stops_after_one (toy_rules n) g1"
     "player_two_ply (toy_rules n) (repeating (Some ''a3'') c2) g1 = Inr g2"
     "\<not> stops_after_two (toy_rules n) g2"
     and v: "board g2 = board g @ [0, 0]" "total_moves g2 = total_moves g + 1"
     "\<not> player_one_resignation g2" "\<not> player_one_failed_to_find_legal_move g2"
     "\<not> player_two_resignation g2" "\<not> player_two_failed_to_find_legal_move g2"
    by blast
  have run: "\<not> board_is_game_over (toy_rules n) (board g)"
    using len by (simp add: toy_rules_def)
  from v tm have "total_moves g2 > MAX_MOVES" by simp
  from game_loop_cap [OF run r this] v tm show ?case
    by (simp add: game_summary_def)
next
  case (Suc m)
  then have len: "length (board g) + 2 < n" and tm: "total_moves g < MAX_MOVES" by simp_all
  from toy_round [OF len, of c1 c2] obtain g1 g2 where
    r: "player_one_ply (toy_rules n) (repeating (Some ''a3'') c1) (begin_round (toy_rules n) g) = Inr g1"
     "\<not> stops_after_one (toy_rules n) g1"
     "player_two_ply (toy_rules n) (repeating (Some ''a3'') c2) g1 = Inr g2"
     "\<not> stops_after_two (toy_rules n) g2"
     and v: "board g2 = board g @ [0, 0]" "total_moves g2 = total_moves g + 1"
    by blast
  have run: "\<not> board_is_game_over (toy_rules n) (board g)"
    using len by (simp add: toy_rules_def)
  from v tm have nocap: "\<not> total_moves g2 > MAX_MOVES" by simp
  have "game_summary (game_loop (toy_rules n) (repeating (Some ''a3'') c1)
            (repeating (Some ''a3'') c2) g2)
         = Some (length (board g2) + 2 * (m + 1), MAX_MOVES + 1, False)"
    using Suc.prems v by (intro Suc.IH) auto
  with game_loop_again [OF run r nocap] v show ?case
    by simp
qed

text \<open>
  C5, as the claim has it, fails: the game is not ended when the number of half-moves
  exceeds \<^verbatim>\<open>MAX_MOVES\<close>. With \<^verbatim>\<open>MAX_MOVES = 89\<close> a game without an end plays 90
  passes and has 180 half-moves on the board when the cap stops it.
\<close>

theorem move_cap_counts_rounds_counterexample:
  "game_summary (game_loop (toy_rules 1000) (repeating (Some ''a3'') model_config)
      (repeating (Some ''a3'') engine_config) opening_game) = Some (180, 90, False)
   \<and> \<not> (180 \<le> MAX_MOVES + 1)"
proof -
  have "game_summary (game_loop (toy_rules 1000) (repeating (Some ''a3'') model_config)
      (repeating (Some ''a3'') engine_config) opening_game)
      = Some (length (board opening_game) + 2 * (89 + 1), MAX_MOVES + 1, False)"
    by (rule toy_endless) (simp_all add: opening_game_def new_game_def MAX_MOVES_def NANOGPT_def)
  then show ?thesis
    by (simp add: opening_game_def new_game_def MAX_MOVES_def NANOGPT_def)
qed

subsection \<open>The random opening\<close>

text \<open>The loop over the attempts, unrolled along a run of failed attempts.\<close>

lemma init_attempts_step:
  "attempt < 5 \<Longrightarrow>
   init_attempts orc rand gs0 n attempt b r =
     (case one_attempt orc rand gs0 n b r of
        (moves, gs, b', r') \<Rightarrow>
          if moves \<noteq> [] then Inr ((gs, b'), r')
          else init_attempts orc rand gs0 n (attempt + 1) b' r')"
  by (simp add: init_attempts.simps [of orc rand gs0 n attempt b r] MAX_INIT_ATTEMPTS_def
        one_attempt_def)

lemma init_attempts_end:
  "\<not> attempt < 5 \<Longrightarrow> init_attempts orc rand gs0 n attempt b r = Inl InitFailed"
  by (simp add: init_attempts.simps [of orc rand gs0 n attempt b r] MAX_INIT_ATTEMPTS_def)

lemma init_attempts_after_failures:
  "failed_attempts orc rand gs0 n k b r = Some (b1, r1) \<Longrightarrow> attempt + int k \<le> 5 \<Longrightarrow>
   init_attempts orc rand gs0 n attempt b r =
   init_attempts orc rand gs0 n (attempt + int k) b1 r1"
proof (induction k arbitrary: attempt b r)
  case 0
  then show ?case by simp
next
  case (Suc k)
  obtain moves gs b' r' where a: "one_attempt orc rand gs0 n b r = (moves, gs, b', r')"
    by (cases "one_attempt orc rand gs0 n b r")
  with Suc.prems(1) have empty: "moves = []"
    and rest: "failed_attempts orc rand gs0 n k b' r' = Some (b1, r1)"
    by (auto split: if_splits)
  from Suc.prems(2) have lt: "attempt < 5" and le: "attempt + 1 + int k \<le> 5"
    by simp_all
  have "init_attempts orc rand gs0 n attempt b r
        = init_attempts orc rand gs0 n (attempt + 1) b' r'"
    by (simp add: init_attempts_step [OF lt] a empty)
  also have "\<dots> = init_attempts orc rand gs0 n (attempt + 1 + int k) b1 r1"
    using rest le by (rule Suc.IH)
  finally show ?case by (simp add: add.assoc)
qed

lemma failed_attempts_Suc_end:
  "failed_attempts orc rand gs0 n (Suc k) b r =
     (case failed_attempts orc rand gs0 n k b r of
        None \<Rightarrow> None
      | Some (b1, r1) \<Rightarrow>
          (case one_attempt orc rand gs0 n b1 r1 of
             (moves, gs, b', r') \<Rightarrow> if moves = [] then Some (b', r') else None))"
proof (induction k arbitrary: b r)
  case 0
  then show ?case by (simp split: prod.splits)
next
  case (Suc k)
  obtain moves gs b' r' where a: "one_attempt orc rand gs0 n b r = (moves, gs, b', r')"
    by (cases "one_attempt orc rand gs0 n b r")
  show ?case
  proof (cases "moves = []")
    case True
    have "failed_attempts orc rand gs0 n (Suc (Suc k)) b r
          = failed_attempts orc rand gs0 n (Suc k) b' r'"
      using a True by simp
    also note Suc.IH [of b' r']
    finally show ?thesis using a True by simp
  next
    case False
    with a show ?thesis by simp
  qed
qed

lemma first_success_or_all_fail:
  "failed_attempts orc rand gs0 n k b r \<noteq> None
   \<or> (\<exists>j b1 r1. j < k \<and> failed_attempts orc rand gs0 n j b r = Some (b1, r1)
         \<and> fst (one_attempt orc rand gs0 n b1 r1) \<noteq> [])"
proof (induction k)
  case 0
  then show ?case by simp
next
  case (Suc k)
  from Suc show ?case
  proof
    assume "failed_attempts orc rand gs0 n k b r \<noteq> None"
    then obtain b1 r1 where f: "failed_attempts orc rand gs0 n k b r = Some (b1, r1)"
      by auto
    show ?thesis
    proof (cases "fst (one_attempt orc rand gs0 n b1 r1) = []")
      case True
      with f have "failed_attempts orc rand gs0 n (Suc k) b r \<noteq> None"
        by (simp only: failed_attempts_Suc_end) (auto split: prod.splits)
      then show ?thesis by blast
    next
      case False
      with f show ?thesis by blast
    qed
  next
    assume "\<exists>j b1 r1. j < k \<and> failed_attempts orc rand gs0 n j b r = Some (b1, r1)
         \<and> fst (one_attempt orc rand gs0 n b1 r1) \<noteq> []"
    then show ?thesis using less_Suc_eq by blast
  qed
qed

lemma initialize_all_failed:
  assumes "failed_attempts orc rand gs0 n 5 b r = Some (b1, r1)"
  shows "initialize_game_with_random_moves orc rand b gs0 n r = Inl InitFailed"
  using init_attempts_after_failures [OF assms, of 0]
  by (simp add: initialize_game_with_random_moves_def init_attempts_end)

lemma initialize_first_success:
  assumes "failed_attempts orc rand gs0 n j b r = Some (b1, r1)" and "j < 5"
    and "one_attempt orc rand gs0 n b1 r1 = (moves, gs, b', r')" and "moves \<noteq> []"
  shows "initialize_game_with_random_moves orc rand b gs0 n r = Inr ((gs, b'), r')"
proof -
  from assms(2) have le: "0 + int j \<le> 5" and lt: "int j < 5" by simp_all
  have "init_attempts orc rand gs0 n (int j) b1 r1 = Inr ((gs, b'), r')"
    by (simp add: init_attempts_step [OF lt] assms(3,4))
  with init_attempts_after_failures [OF assms(1) le]
  show ?thesis
    by (simp add: initialize_game_with_random_moves_def)
qed

text \<open>An attempt is given up where the board has no legal move, and only there.\<close>

lemma random_ply_empty:
  "board_legal_moves orc b = [] \<Longrightarrow> random_ply orc rand i p (gs, b, r) = ([], gs, b, r)"
  by (simp add: random_ply_def)

lemma random_ply_moves:
  "random_ply orc rand i p (gs, b, r) = (moves, st') \<Longrightarrow> moves = board_legal_moves orc b"
  by (auto simp: random_ply_def Let_def split: if_splits prod.splits)

lemma random_move_pair_empty:
  assumes "random_move_pair orc rand i st = ([], gs', b', r')"
  shows "board_legal_moves orc b' = []"
proof -
  obtain gs b r where st: "st = (gs, b, r)" by (cases st)
  obtain m1 gs1 b1 r1 where p0: "random_ply orc rand i 0 (gs, b, r) = (m1, gs1, b1, r1)"
    by (cases "random_ply orc rand i 0 (gs, b, r)")
  show ?thesis
  proof (cases "m1 = []")
    case True
    with random_ply_moves [OF p0] have "board_legal_moves orc b = []" by simp
    with assms st show ?thesis
      by (simp add: random_move_pair_def random_ply_empty)
  next
    case False
    with assms st p0 have p1: "random_ply orc rand i 1 (gs1, b1, r1) = ([], gs', b', r')"
      by (simp add: random_move_pair_def)
    from random_ply_moves [OF p1] have "board_legal_moves orc b1 = []" by simp
    with p1 show ?thesis by (simp add: random_ply_empty)
  qed
qed

lemma random_moves_from_empty:
  "random_moves_from orc rand n i (m0, st) = ([], gs', b', r') \<Longrightarrow>
   (\<not> i < n + 1 \<and> m0 = []) \<or> board_legal_moves orc b' = []"
proof (induction "nat (n + 1 - i)" arbitrary: i m0 st)
  case 0
  then have "\<not> i < n + 1" by simp
  with "0.prems" show ?case
    by (simp add: random_moves_from.simps [of orc rand n i])
next
  case (Suc k)
  then have lt: "i < n + 1" and k: "k = nat (n + 1 - (i + 1))" by simp_all
  obtain m1 st1 where p: "random_move_pair orc rand i st = (m1, st1)"
    by (cases "random_move_pair orc rand i st")
  show ?case
  proof (cases "m1 = []")
    case True
    with Suc.prems lt p have "random_move_pair orc rand i st = ([], gs', b', r')"
      by (simp add: random_moves_from.simps [of orc rand n i])
    then show ?thesis by (simp add: random_move_pair_empty)
  next
    case False
    with Suc.prems lt p have "random_moves_from orc rand n (i + 1) (m1, st1) = ([], gs', b', r')"
      by (simp add: random_moves_from.simps [of orc rand n i])
    from Suc.hyps(1) [OF k this] False show ?thesis by simp
  qed
qed

lemma random_moves_from_stuck:
  assumes "i < n + 1" and "board_legal_moves orc b = []"
  shows "random_moves_from orc rand n i (m0, gs, b, r) = ([], gs, b, r)"
  using assms
  by (simp add: random_moves_from.simps [of orc rand n i] random_move_pair_def random_ply_empty)

lemma random_moves_from_stuck_mid:
  assumes "i < n + 1" and "random_ply orc rand i 0 (gs, b, r) = (m, gs1, b1, r1)"
    and "m \<noteq> []" and "board_legal_moves orc b1 = []"
  shows "random_moves_from orc rand n i (m0, gs, b, r) = ([], gs1, b1, r1)"
  using assms
  by (simp add: random_moves_from.simps [of orc rand n i] random_move_pair_def random_ply_empty)

text \<open>An exception in a game ends the batch and writes no row.\<close>

lemma play_games_error:
  assumes "i < max_games"
    and "play_single_game orc p1 p2 rand prompt rnd (stamps i) w = Inl e"
  shows "play_games orc p1 p2 rand prompt rnd stamps max_games i w rows = (Some e, rows, w)"
  using assms
  by (simp add: play_games.simps [of orc p1 p2 rand prompt rnd stamps max_games i w rows])

text \<open>
  C9. The random opening makes at most five attempts, each from a reset board and the
  initial transcript. It raises exactly when five attempts in a row end without a move,
  and otherwise returns what the first attempt that ends with a move produced. An
  attempt that finds the set of legal moves empty, at the start of a pair of plies or
  after the first ply of a pair, ends there with \<^verbatim>\<open>moves\<close> empty; an attempt that
  ends with \<^verbatim>\<open>moves\<close> empty has either drawn nothing (the depth is below 1) or
  stopped at a board without legal moves. When the opening raises, the game raises and
  the batch ends with the rows it had: no row is written for that game.
\<close>

theorem random_opening_retries:
  "(initialize_game_with_random_moves orc rand b gs0 n r = Inl e \<longleftrightarrow>
      e = InitFailed \<and> failed_attempts orc rand gs0 n 5 b r \<noteq> None)
   \<and> (initialize_game_with_random_moves orc rand b gs0 n r = Inr ((gs, b'), r') \<longleftrightarrow>
      (\<exists>j b1 r1 moves. j < 5 \<and> failed_attempts orc rand gs0 n j b r = Some (b1, r1)
         \<and> one_attempt orc rand gs0 n b1 r1 = (moves, gs, b', r') \<and> moves \<noteq> []))
   \<and> (i < n + 1 \<and> board_legal_moves orc b = [] \<longrightarrow>
      random_moves_from orc rand n i (m0, gs, b, r) = ([], gs, b, r))
   \<and> (i < n + 1 \<and> random_ply orc rand i 0 (gs, b, r) = (m, gs1, b1, r1) \<and> m \<noteq> []
        \<and> board_legal_moves orc b1 = [] \<longrightarrow>
      random_moves_from orc rand n i (m0, gs, b, r) = ([], gs1, b1, r1))
   \<and> (one_attempt orc rand gs0 n b r = ([], gs, b', r') \<longrightarrow>
      n < 1 \<or> board_legal_moves orc b' = [])
   \<and> (initialize_game_with_random_moves orc rand (board_new orc) gs0 n r = Inl e \<longrightarrow>
      play_single_game orc p1 p2 rand gs0 (Some n) stamp (ps1, ps2, dg, r) = Inl e)
   \<and> (k < max_games
        \<and> play_single_game orc p1 p2 rand gs0 (Some n) (stamps k) (ps1, ps2, dg, r) = Inl e \<longrightarrow>
      play_games orc p1 p2 rand gs0 (Some n) stamps max_games k (ps1, ps2, dg, r) rows
        = (Some e, rows, (ps1, ps2, dg, r)))"
proof -
  let ?init = "initialize_game_with_random_moves orc rand b gs0 n r"
  have split: "failed_attempts orc rand gs0 n 5 b r \<noteq> None
   \<or> (\<exists>j b1 r1. j < 5 \<and> failed_attempts orc rand gs0 n j b r = Some (b1, r1)
         \<and> fst (one_attempt orc rand gs0 n b1 r1) \<noteq> [])"
    by (rule first_success_or_all_fail)
  have failed: "?init = Inl InitFailed" if "failed_attempts orc rand gs0 n 5 b r \<noteq> None"
    using that initialize_all_failed [of orc rand gs0 n b r] by auto
  have success: "\<exists>x. ?init = Inr x"
    if "j < 5" "failed_attempts orc rand gs0 n j b r = Some (b1, r1)"
      "fst (one_attempt orc rand gs0 n b1 r1) \<noteq> []" for j b1 r1
  proof -
    obtain moves gs b' r' where "one_attempt orc rand gs0 n b1 r1 = (moves, gs, b', r')"
      by (cases "one_attempt orc rand gs0 n b1 r1")
    with that initialize_first_success [OF that(2,1) this] show ?thesis by simp
  qed
  have A: "?init = Inl e \<longleftrightarrow> e = InitFailed \<and> failed_attempts orc rand gs0 n 5 b r \<noteq> None"
  proof
    assume l: "?init = Inl e"
    from split show "e = InitFailed \<and> failed_attempts orc rand gs0 n 5 b r \<noteq> None"
    proof
      assume "failed_attempts orc rand gs0 n 5 b r \<noteq> None"
      with failed l show ?thesis by simp
    next
      assume "\<exists>j b1 r1. j < 5 \<and> failed_attempts orc rand gs0 n j b r = Some (b1, r1)
         \<and> fst (one_attempt orc rand gs0 n b1 r1) \<noteq> []"
      with success l show ?thesis by fastforce
    qed
  next
    assume "e = InitFailed \<and> failed_attempts orc rand gs0 n 5 b r \<noteq> None"
    with failed show "?init = Inl e" by simp
  qed
  have B: "?init = Inr ((gs, b'), r') \<longleftrightarrow>
      (\<exists>j b1 r1 moves. j < 5 \<and> failed_attempts orc rand gs0 n j b r = Some (b1, r1)
         \<and> one_attempt orc rand gs0 n b1 r1 = (moves, gs, b', r') \<and> moves \<noteq> [])"
  proof
    assume r: "?init = Inr ((gs, b'), r')"
    from split show "\<exists>j b1 r1 moves. j < 5 \<and> failed_attempts orc rand gs0 n j b r = Some (b1, r1)
         \<and> one_attempt orc rand gs0 n b1 r1 = (moves, gs, b', r') \<and> moves \<noteq> []"
    proof
      assume "failed_attempts orc rand gs0 n 5 b r \<noteq> None"
      with failed r show ?thesis by simp
    next
      assume "\<exists>j b1 r1. j < 5 \<and> failed_attempts orc rand gs0 n j b r = Some (b1, r1)
         \<and> fst (one_attempt orc rand gs0 n b1 r1) \<noteq> []"
      then obtain j b1 r1 where j: "j < 5" "failed_attempts orc rand gs0 n j b r = Some (b1, r1)"
        "fst (one_attempt orc rand gs0 n b1 r1) \<noteq> []"
        by blast
      obtain moves gs1 b2 r2 where a: "one_attempt orc rand gs0 n b1 r1 = (moves, gs1, b2, r2)"
        by (cases "one_attempt orc rand gs0 n b1 r1")
      with j(3) have ne: "moves \<noteq> []" by simp
      from initialize_first_success [OF j(2,1) a ne] r have "gs1 = gs" "b2 = b'" "r2 = r'"
        by simp_all
      with j a ne show ?thesis by blast
    qed
  next
    assume "\<exists>j b1 r1 moves. j < 5 \<and> failed_attempts orc rand gs0 n j b r = Some (b1, r1)
         \<and> one_attempt orc rand gs0 n b1 r1 = (moves, gs, b', r') \<and> moves \<noteq> []"
    then obtain j b1 r1 moves where "j < 5"
      "failed_attempts orc rand gs0 n j b r = Some (b1, r1)"
      "one_attempt orc rand gs0 n b1 r1 = (moves, gs, b', r')" "moves \<noteq> []"
      by blast
    from initialize_first_success [OF this(2,1,3,4)] show "?init = Inr ((gs, b'), r')" .
  qed
  have C: "i < n + 1 \<and> board_legal_moves orc b = [] \<longrightarrow>
      random_moves_from orc rand n i (m0, gs, b, r) = ([], gs, b, r)"
    by (simp add: random_moves_from_stuck)
  have D: "i < n + 1 \<and> random_ply orc rand i 0 (gs, b, r) = (m, gs1, b1, r1) \<and> m \<noteq> []
        \<and> board_legal_moves orc b1 = [] \<longrightarrow>
      random_moves_from orc rand n i (m0, gs, b, r) = ([], gs1, b1, r1)"
    by (auto intro: random_moves_from_stuck_mid)
  have E: "one_attempt orc rand gs0 n b r = ([], gs, b', r') \<longrightarrow>
      n < 1 \<or> board_legal_moves orc b' = []"
    using random_moves_from_empty [of orc rand n 1 "[]" "(gs0, board_reset orc b, r)" gs b' r']
    by (auto simp: one_attempt_def)
  have F: "initialize_game_with_random_moves orc rand (board_new orc) gs0 n r = Inl e \<longrightarrow>
      play_single_game orc p1 p2 rand gs0 (Some n) stamp (ps1, ps2, dg, r) = Inl e"
    by (simp add: play_single_game_def)
  have G: "k < max_games
        \<and> play_single_game orc p1 p2 rand gs0 (Some n) (stamps k) (ps1, ps2, dg, r) = Inl e \<longrightarrow>
      play_games orc p1 p2 rand gs0 (Some n) stamps max_games k (ps1, ps2, dg, r) rows
        = (Some e, rows, (ps1, ps2, dg, r))"
    by (auto intro: play_games_error)
  from A B C D E F G show ?thesis by (intro conjI)
qed

text \<open>
  Runs of C9: on a board without any legal move an opening of depth 3 fails five times,
  the game raises and the batch ends without a row; on the small board an opening of
  depth 1 succeeds at once; an attempt is given up before its first ply, and another
  after its first ply.
\<close>

theorem random_opening_retries_witness:
  "failed_attempts (toy_rules 0) counting [] 3 5 [] 0 = Some ([], 0)
   \<and> initialize_game_with_random_moves (toy_rules 0) counting [] [] 3 0 = Inl InitFailed
   \<and> play_single_game (toy_rules 0) (scripted [] model_config) (scripted [] engine_config)
        counting [] (Some 3) (''1700000000-1234'', 3) (0, 0, [], 0) = Inl InitFailed
   \<and> play_games (toy_rules 0) (scripted [] model_config) (scripted [] engine_config)
        counting [] (Some 3) fixed_stamp 2 0 (0, 0, [], 0) []
      = (Some InitFailed, [], (0, 0, [], 0))
   \<and> one_attempt (toy_rules 4) counting [] 1 [] 0 = ([0, 1], ''1. a3 a4'', [0, 1], 2)
   \<and> initialize_game_with_random_moves (toy_rules 4) counting [] [] 1 0
        = Inr ((''1. a3 a4'', [0, 1]), 2)
   \<and> random_moves_from (toy_rules 0) counting 3 1 ([], [], [], 0) = ([], [], [], 0)
   \<and> random_ply (toy_rules 1) counting 1 0 ([], [], 0) = ([0, 1], ''1. a3'', [0], 1)
   \<and> random_moves_from (toy_rules 1) counting 3 1 ([], [], [], 0) = ([], ''1. a3'', [0], 1)
   \<and> one_attempt (toy_rules 1) counting [] 3 [] 0 = ([], ''1. a3'', [0], 1)
   \<and> board_legal_moves (toy_rules 1) [0] = []"
proof -
  note opening_simps = one_attempt_def random_moves_from.simps random_move_pair_def
    random_ply_def random_choice_def counting_def toy_rules_def str_int_def str_nat.simps
    digit_char_def Let_def
  have stuck: "failed_attempts (toy_rules 0) counting [] 3 5 [] 0 = Some ([], 0)"
    by (simp add: eval_nat_numeral opening_simps)
  have ok: "one_attempt (toy_rules 4) counting [] 1 [] 0 = ([0, 1], ''1. a3 a4'', [0, 1], 2)"
    by (simp add: opening_simps)
  have none: "failed_attempts (toy_rules 4) counting [] 1 0 [] 0 = Some ([], 0)"
    by simp
  note inst = random_opening_retries [where orc = "toy_rules 0" and rand = counting
      and b = "[]" and ?gs0.0 = "[]" and n = 3 and r = 0 and e = InitFailed
      and ?p1.0 = "scripted [] model_config" and ?p2.0 = "scripted [] engine_config"
      and stamp = "(''1700000000-1234'', 3)" and ?ps1.0 = 0 and ?ps2.0 = 0 and dg = "[]"
      and stamps = fixed_stamp and k = 0 and max_games = 2 and rows = "[]"
      and i = 1 and ?m0.0 = "[]" and gs = "[]"]
  from inst stuck have init: "initialize_game_with_random_moves (toy_rules 0) counting [] [] 3 0
      = Inl InitFailed"
    by simp
  have new: "board_new (toy_rules 0) = []" by (simp add: toy_rules_def)
  from inst init new have game: "play_single_game (toy_rules 0) (scripted [] model_config)
        (scripted [] engine_config) counting [] (Some 3) (''1700000000-1234'', 3) (0, 0, [], 0)
      = Inl InitFailed"
    by simp
  have stamp: "fixed_stamp 0 = (''1700000000-1234'', 3)" by (simp add: fixed_stamp_def)
  from inst game stamp have batch: "play_games (toy_rules 0) (scripted [] model_config)
        (scripted [] engine_config) counting [] (Some 3) fixed_stamp 2 0 (0, 0, [], 0) []
      = (Some InitFailed, [], (0, 0, [], 0))"
    by simp
  have empty0: "board_legal_moves (toy_rules 0) [] = []" by (simp add: toy_rules_def)
  from inst empty0 have start: "random_moves_from (toy_rules 0) counting 3 1 ([], [], [], 0)
      = ([], [], [], 0)"
    by simp
  from random_opening_retries [where orc = "toy_rules 4" and rand = counting
      and b = "[]" and ?gs0.0 = "[]" and n = 1 and r = 0 and gs = "''1. a3 a4''"
      and b' = "[0, 1]" and r' = 2] ok none
  have first: "initialize_game_with_random_moves (toy_rules 4) counting [] [] 1 0
        = Inr ((''1. a3 a4'', [0, 1]), 2)"
    by (metis zero_less_numeral list.distinct(1))
  have ply: "random_ply (toy_rules 1) counting 1 0 ([], [], 0) = ([0, 1], ''1. a3'', [0], 1)"
    by (simp add: opening_simps)
  have empty1: "board_legal_moves (toy_rules 1) [0] = []" by (simp add: toy_rules_def)
  from random_opening_retries [where orc = "toy_rules 1" and rand = counting and n = 3
      and i = 1 and gs = "[]" and b = "[]" and r = 0 and m = "[0, 1]" and ?gs1.0 = "''1. a3''"
      and ?b1.0 = "[0]" and ?r1.0 = 1 and ?m0.0 = "[]",
      THEN conjunct2, THEN conjunct2, THEN conjunct2, THEN conjunct1] ply empty1
  have mid: "random_moves_from (toy_rules 1) counting 3 1 ([], [], [], 0)
      = ([], ''1. a3'', [0], 1)"
    by simp
  have given_up: "one_attempt (toy_rules 1) counting [] 3 [] 0 = ([], ''1. a3'', [0], 1)"
    by (simp add: opening_simps)
  from random_opening_retries [where orc = "toy_rules 1" and rand = counting and n = 3
      and ?gs0.0 = "[]" and b = "[]" and r = 0 and gs = "''1. a3''" and b' = "[0]" and r' = 1,
      THEN conjunct2, THEN conjunct2, THEN conjunct2, THEN conjunct2, THEN conjunct1]
    given_up
  have "board_legal_moves (toy_rules 1) [0] = []"
    by simp
  with stuck init game batch ok first start ply mid given_up show ?thesis
    by (intro conjI)
qed

subsection \<open>Splitting at whitespace\<close>

lemma split_tokens_append:
  "ys = [] \<or> isspace (hd ys) \<Longrightarrow>
   split_tokens cur (xs @ ys) = split_tokens cur xs @ split_ws ys"
proof (induction xs arbitrary: cur)
  case Nil
  then show ?case by (cases ys) (auto simp: split_ws_def)
next
  case (Cons x xs)
  then show ?case by simp
qed

lemma split_ws_append:
  "ys = [] \<or> isspace (hd ys) \<Longrightarrow> split_ws (xs @ ys) = split_ws xs @ split_ws ys"
  by (simp add: split_ws_def split_tokens_append [unfolded split_ws_def])

lemma split_tokens_word:
  "\<forall>c \<in> set t. \<not> isspace c \<Longrightarrow> split_tokens cur t = (if cur @ t = [] then [] else [cur @ t])"
  by (induction t arbitrary: cur) auto

lemma split_ws_word: "t \<noteq> [] \<Longrightarrow> \<forall>c \<in> set t. \<not> isspace c \<Longrightarrow> split_ws t = [t]"
  by (simp add: split_ws_def split_tokens_word)

lemma split_ws_space_word:
  "t \<noteq> [] \<Longrightarrow> \<forall>c \<in> set t. \<not> isspace c \<Longrightarrow> split_ws (CHR '' '' # t) = [t]"
  by (simp add: split_ws_def split_tokens_word isspace_def)

lemma digit_char_not_space: "d < 10 \<Longrightarrow> \<not> isspace (digit_char d)"
proof -
  assume "d < 10"
  then have "d \<in> {0, 1, 2, 3, 4, 5, 6, 7, 8, 9}" by auto
  then show ?thesis
    by (auto simp: digit_char_def isspace_def)
qed

lemma str_nat_no_space: "\<forall>c \<in> set (str_nat n). \<not> isspace c"
proof (induction n rule: str_nat.induct)
  case (1 n)
  show ?case
  proof (cases "n < 10")
    case True
    then show ?thesis by (simp add: str_nat.simps [of n] digit_char_not_space)
  next
    case False
    with "1.IH" show ?thesis
      by (simp add: str_nat.simps [of n] digit_char_not_space)
  qed
qed

lemma str_nat_nonempty: "str_nat n \<noteq> []"
  by (simp add: str_nat.simps [of n])

lemma str_int_no_space: "\<forall>c \<in> set (str_int i). \<not> isspace c"
proof -
  have "\<not> isspace CHR ''-''" by (simp add: isspace_def)
  then show ?thesis
    using str_nat_no_space by (simp add: str_int_def)
qed

lemma split_ws_move_number:
  "split_ws (str_int i @ ''.'') = [str_int i @ ''.'']"
  "split_ws (CHR '' '' # str_int i @ ''.'') = [str_int i @ ''.'']"
proof -
  have ok: "\<forall>c \<in> set (str_int i @ ''.''). \<not> isspace c"
    using str_int_no_space [of i] by (auto simp: isspace_def)
  show "split_ws (str_int i @ ''.'') = [str_int i @ ''.'']"
    by (rule split_ws_word [OF _ ok]) simp
  show "split_ws (CHR '' '' # str_int i @ ''.'') = [str_int i @ ''.'']"
    by (rule split_ws_space_word [OF _ ok]) simp
qed

lemma replay_append:
  "replay orc b (xs @ ys) =
     (case replay orc b xs of None \<Rightarrow> None | Some b' \<Rightarrow> replay orc b' ys)"
  by (induction xs arbitrary: b) (auto split: option.splits)

subsection \<open>The transcript of a game\<close>

lemma ply_piece_replay:
  assumes "ply_piece orc b piece b'"
  shows "replay orc b (split_ws piece) = Some b'" and "piece = [] \<or> isspace (hd piece)"
proof -
  from assms consider (none) "piece = []" "b' = b"
    | (move) t m where "san_text_ok t" "board_parse_san orc b t = Some m"
        "m \<in> set (board_legal_moves orc b)" "piece = CHR '' '' # t" "b' = board_push orc m b"
    unfolding ply_piece_def by blast
  then show "replay orc b (split_ws piece) = Some b'"
  proof cases
    case none
    then show ?thesis by (simp add: split_ws_def)
  next
    case move
    then have "split_ws piece = [t]"
      by (simp add: san_text_ok_def split_ws_space_word)
    with move show ?thesis by (simp add: san_text_ok_def)
  qed
  from assms show "piece = [] \<or> isspace (hd piece)"
    unfolding ply_piece_def by (auto simp: isspace_def)
qed

lemma san_text_ok_no_leading_space: "san_text_ok t \<Longrightarrow> \<not> startswith_space t"
  by (cases t) (auto simp: san_text_ok_def startswith_space_def isspace_def)

lemma play_turn_piece:
  assumes contract: "parser_contract orc"
    and turn: "play_turn orc pl b gs player_one ps dg = Inr ((gs', res, failed, cost), b', ps', dg')"
  shows "\<exists>piece. gs' = gs @ piece \<and> ply_piece orc b piece b'
           \<and> (res \<or> failed \<longrightarrow> piece = [])
           \<and> (\<not> res \<and> \<not> failed \<longrightarrow> (\<exists>m. b' = board_push orc m b))"
proof -
  from play_turn_cost [OF turn] obtain r where
    r: "get_legal_move orc pl b gs player_one 5 ps dg = Inr (r, ps', dg')"
    by blast
  then have "response_shape orc b 5 0 r"
    unfolding get_legal_move_def by (rule attempt_loop_result_cases)
  then consider (exhausted) "r = exhausted_response 5"
    | (resigned) k where "r = resignation_response k"
    | (legal) k s m where "board_parse_san orc b s = Some m"
        "m \<in> set (board_legal_moves orc b)" "r = legal_response s m k"
    unfolding response_shape_def by blast
  then show ?thesis
  proof cases
    case exhausted
    with turn r have "gs' = gs" "b' = b" "failed"
      by (simp_all add: play_turn_def exhausted_response_def)
    then show ?thesis by (simp add: ply_piece_def)
  next
    case resigned
    with turn r have "gs' = gs" "b' = b" "res"
      by (simp_all add: play_turn_def resignation_response_def)
    then show ?thesis by (simp add: ply_piece_def)
  next
    case legal
    from contract legal(1) have ok: "san_text_ok s"
      unfolding parser_contract_def by blast
    then have "\<not> startswith_space s" by (rule san_text_ok_no_leading_space)
    with turn r legal(3) have "gs' = gs @ CHR '' '' # s" "b' = board_push orc m b"
        "\<not> res" "\<not> failed"
      by (simp_all add: play_turn_def legal_response_def)
    with ok legal(1,2) show ?thesis
      unfolding ply_piece_def by blast
  qed
qed

lemma player_one_ply_piece:
  assumes "parser_contract orc" and "player_one_ply orc p1 g = Inr g1"
  shows "\<exists>piece. game_state g1 = game_state g @ piece \<and> ply_piece orc (board g) piece (board g1)
           \<and> (\<not> player_one_resignation g1 \<and> \<not> player_one_failed_to_find_legal_move g1 \<longrightarrow>
                (\<exists>m. board g1 = board_push orc m (board g)))"
proof (cases "play_turn orc p1 (board g) (game_state g) True (player_one_state g) (diagnostics g)")
  case (Inl e)
  with assms(2) show ?thesis by (simp add: player_one_ply_def)
next
  case (Inr x)
  obtain gs' res failed cost b' ps' dg' where x: "x = ((gs', res, failed, cost), b', ps', dg')"
    by (cases x) auto
  from assms(2) have "game_state g1 = gs'" "board g1 = b'" "player_one_resignation g1 = res"
      "player_one_failed_to_find_legal_move g1 = failed"
    by (auto simp: player_one_ply_def Inr x)
  with play_turn_piece [OF assms(1) Inr [unfolded x]] show ?thesis
    by auto
qed

lemma player_two_ply_piece:
  assumes "parser_contract orc" and "player_two_ply orc p2 g = Inr g2"
  shows "\<exists>piece. game_state g2 = game_state g @ piece \<and> ply_piece orc (board g) piece (board g2)
           \<and> (\<not> player_two_resignation g2 \<and> \<not> player_two_failed_to_find_legal_move g2 \<longrightarrow>
                (\<exists>m. board g2 = board_push orc m (board g)))"
proof (cases "play_turn orc p2 (board g) (game_state g) False (player_two_state g) (diagnostics g)")
  case (Inl e)
  with assms(2) show ?thesis by (simp add: player_two_ply_def)
next
  case (Inr x)
  obtain gs' res failed cost b' ps' dg' where x: "x = ((gs', res, failed, cost), b', ps', dg')"
    by (cases x) auto
  from assms(2) have "game_state g2 = gs'" "board g2 = b'" "player_two_resignation g2 = res"
      "player_two_failed_to_find_legal_move g2 = failed"
    by (auto simp: player_two_ply_def Inr x)
  with play_turn_piece [OF assms(1) Inr [unfolded x]] show ?thesis
    by auto
qed

lemma replay_move_number:
  "replay orc b [str_int (board_fullmove_number orc b) @ ''.''] = Some b"
  by simp

lemma begin_round_head:
  "\<exists>head. game_state (begin_round orc g) = game_state g @ head \<and> head \<noteq> []
     \<and> (board_fullmove_number orc (board g) = 1 \<or> isspace (hd head))
     \<and> split_ws head = [str_int (board_fullmove_number orc (board g)) @ ''.'']"
proof (cases "board_fullmove_number orc (board g) = 1")
  case True
  then have "game_state (begin_round orc g)
      = game_state g @ (str_int (board_fullmove_number orc (board g)) @ ''.'')"
    by (simp add: begin_round_def Let_def)
  with True split_ws_move_number(1) [of "board_fullmove_number orc (board g)"]
  show ?thesis by (intro exI [of _ "str_int (board_fullmove_number orc (board g)) @ ''.''"]) simp
next
  case False
  then have "game_state (begin_round orc g)
      = game_state g @ (CHR '' '' # str_int (board_fullmove_number orc (board g)) @ ''.'')"
    by (simp add: begin_round_def Let_def)
  with split_ws_move_number(2) [of "board_fullmove_number orc (board g)"]
  show ?thesis
    by (intro exI [of _ "CHR '' '' # str_int (board_fullmove_number orc (board g)) @ ''.''"])
       (simp add: isspace_def)
qed

lemma replay_head_pieces:
  assumes head: "split_ws head = [str_int (board_fullmove_number orc b) @ ''.'']"
    and one: "ply_piece orc b piece1 b1" and two: "ply_piece orc b1 piece2 b2"
  shows "replay orc b (split_ws (head @ piece1 @ piece2)) = Some b2"
    and "piece1 @ piece2 = [] \<or> isspace (hd (piece1 @ piece2))"
proof -
  note r1 = ply_piece_replay [OF one] and r2 = ply_piece_replay [OF two]
  show sp: "piece1 @ piece2 = [] \<or> isspace (hd (piece1 @ piece2))"
    using r1(2) r2(2) by (cases piece1) auto
  have "split_ws (head @ piece1 @ piece2) = split_ws head @ split_ws (piece1 @ piece2)"
    using sp by (rule split_ws_append)
  also have "split_ws (piece1 @ piece2) = split_ws piece1 @ split_ws piece2"
    using r2(2) by (rule split_ws_append)
  finally have "split_ws (head @ piece1 @ piece2)
      = [str_int (board_fullmove_number orc b) @ ''.''] @ split_ws piece1 @ split_ws piece2"
    by (simp add: head)
  then show "replay orc b (split_ws (head @ piece1 @ piece2)) = Some b2"
    using r1(1) r2(1) by (simp add: replay_append)
qed

lemma game_loop_transcript:
  assumes parser: "parser_contract orc" and counter: "counter_contract orc"
    and ret: "game_loop orc p1 p2 g = Inr g'"
  shows "transcript_replays orc g g'"
  using ret
proof (induction rule: game_loop_result_induct)
  case (over g)
  show ?case
    unfolding transcript_replays_def by (intro exI [of _ "[]"]) (simp add: split_ws_def)
next
  case (one g g1)
  from begin_round_head [of orc g] obtain head where
    head: "game_state (begin_round orc g) = game_state g @ head" "head \<noteq> []"
      "board_fullmove_number orc (board g) = 1 \<or> isspace (hd head)"
      "split_ws head = [str_int (board_fullmove_number orc (board g)) @ ''.'']"
    by blast
  have b0: "board (begin_round orc g) = board g" by (simp add: begin_round_def Let_def)
  from player_one_ply_piece [OF parser one(2)] b0 obtain piece1 where
    p1: "game_state g1 = game_state (begin_round orc g) @ piece1"
      "ply_piece orc (board g) piece1 (board g1)"
    by auto
  have p2: "ply_piece orc (board g1) [] (board g1)" by (simp add: ply_piece_def)
  from replay_head_pieces(1) [OF head(4) p1(2) p2]
  have "replay orc (board g) (split_ws (head @ piece1)) = Some (board g1)" by simp
  moreover have "game_state g1 = game_state g @ (head @ piece1)"
    using head(1) p1(1) by simp
  moreover have "board_fullmove_number orc (board g) = 1 \<or> isspace (hd (head @ piece1))"
    using head(2,3) by simp
  ultimately show ?case
    unfolding transcript_replays_def by blast
next
  case (two g g1 g2)
  from begin_round_head [of orc g] obtain head where
    head: "game_state (begin_round orc g) = game_state g @ head" "head \<noteq> []"
      "board_fullmove_number orc (board g) = 1 \<or> isspace (hd head)"
      "split_ws head = [str_int (board_fullmove_number orc (board g)) @ ''.'']"
    by blast
  have b0: "board (begin_round orc g) = board g" by (simp add: begin_round_def Let_def)
  from player_one_ply_piece [OF parser two(2)] b0 obtain piece1 where
    p1: "game_state g1 = game_state (begin_round orc g) @ piece1"
      "ply_piece orc (board g) piece1 (board g1)"
    by auto
  from player_two_ply_piece [OF parser two(4)] obtain piece2 where
    p2: "game_state g2 = game_state g1 @ piece2" "ply_piece orc (board g1) piece2 (board g2)"
    by auto
  from replay_head_pieces(1) [OF head(4) p1(2) p2(2)]
  have "replay orc (board g) (split_ws (head @ piece1 @ piece2)) = Some (board g2)" .
  moreover have "game_state g2 = game_state g @ (head @ piece1 @ piece2)"
    using head(1) p1(1) p2(1) by simp
  moreover have "board_fullmove_number orc (board g) = 1
      \<or> isspace (hd (head @ piece1 @ piece2))"
    using head(2,3) by simp
  ultimately show ?case
    unfolding transcript_replays_def by blast
next
  case (cap g g1 g2)
  from begin_round_head [of orc g] obtain head where
    head: "game_state (begin_round orc g) = game_state g @ head" "head \<noteq> []"
      "board_fullmove_number orc (board g) = 1 \<or> isspace (hd head)"
      "split_ws head = [str_int (board_fullmove_number orc (board g)) @ ''.'']"
    by blast
  have b0: "board (begin_round orc g) = board g" by (simp add: begin_round_def Let_def)
  from player_one_ply_piece [OF parser cap(2)] b0 obtain piece1 where
    p1: "game_state g1 = game_state (begin_round orc g) @ piece1"
      "ply_piece orc (board g) piece1 (board g1)"
    by auto
  from player_two_ply_piece [OF parser cap(4)] obtain piece2 where
    p2: "game_state g2 = game_state g1 @ piece2" "ply_piece orc (board g1) piece2 (board g2)"
    by auto
  from replay_head_pieces(1) [OF head(4) p1(2) p2(2)]
  have "replay orc (board g) (split_ws (head @ piece1 @ piece2)) = Some (board g2)" .
  moreover have "game_state g2 = game_state g @ (head @ piece1 @ piece2)"
    using head(1) p1(1) p2(1) by simp
  moreover have "board_fullmove_number orc (board g) = 1
      \<or> isspace (hd (head @ piece1 @ piece2))"
    using head(2,3) by simp
  ultimately show ?case
    unfolding transcript_replays_def by blast
next
  case (again g g1 g2)
  from begin_round_head [of orc g] obtain head where
    head: "game_state (begin_round orc g) = game_state g @ head" "head \<noteq> []"
      "board_fullmove_number orc (board g) = 1 \<or> isspace (hd head)"
      "split_ws head = [str_int (board_fullmove_number orc (board g)) @ ''.'']"
    by blast
  have b0: "board (begin_round orc g) = board g" by (simp add: begin_round_def Let_def)
  from player_one_ply_piece [OF parser again(2)] b0 again(3) obtain piece1 m1 where
    p1: "game_state g1 = game_state (begin_round orc g) @ piece1"
      "ply_piece orc (board g) piece1 (board g1)" "board g1 = board_push orc m1 (board g)"
    by (auto simp: stops_after_one_def)
  from player_two_ply_piece [OF parser again(4)] again(5) obtain piece2 m2 where
    p2: "game_state g2 = game_state g1 @ piece2" "ply_piece orc (board g1) piece2 (board g2)"
      "board g2 = board_push orc m2 (board g1)"
    by (auto simp: stops_after_two_def)
  from counter p1(3) p2(3) have not1: "board_fullmove_number orc (board g2) \<noteq> 1"
    unfolding counter_contract_def by simp
  from again(8) not1 obtain rest where
    rest: "game_state g' = game_state g2 @ rest" "rest = [] \<or> isspace (hd rest)"
      "replay orc (board g2) (split_ws rest) = Some (board g')"
    unfolding transcript_replays_def by blast
  have "split_ws ((head @ piece1 @ piece2) @ rest)
      = split_ws (head @ piece1 @ piece2) @ split_ws rest"
    using rest(2) by (rule split_ws_append)
  with replay_head_pieces(1) [OF head(4) p1(2) p2(2)] rest(3)
  have "replay orc (board g) (split_ws ((head @ piece1 @ piece2) @ rest)) = Some (board g')"
    by (simp add: replay_append)
  moreover have "game_state g' = game_state g @ ((head @ piece1 @ piece2) @ rest)"
    using head(1) p1(1) p2(1) rest(1) by simp
  moreover have "board_fullmove_number orc (board g) = 1
      \<or> isspace (hd ((head @ piece1 @ piece2) @ rest))"
    using head(2,3) by simp
  ultimately show ?case
    unfolding transcript_replays_def by blast
qed

lemma get_legal_move_normalized:
  assumes "parser_contract orc"
    and "get_legal_move orc pl b gs player_one mx ps dg = Inr (r, ps', dg')"
    and "move_san r = Some s"
  shows "\<exists>t m. s = CHR '' '' # t \<and> san_text_ok t \<and> move_uci r = Some m
           \<and> board_parse_san orc b t = Some m \<and> m \<in> set (board_legal_moves orc b)"
proof -
  from assms(2) have "response_shape orc b mx 0 r"
    unfolding get_legal_move_def by (rule attempt_loop_result_cases)
  with assms(3) obtain k t m where
    legal: "board_parse_san orc b t = Some m" "m \<in> set (board_legal_moves orc b)"
      "r = legal_response t m k"
    unfolding response_shape_def
    by (auto simp: exhausted_response_def resignation_response_def)
  from assms(1) legal(1) have ok: "san_text_ok t"
    unfolding parser_contract_def by blast
  then have "\<not> startswith_space t" by (rule san_text_ok_no_leading_space)
  with assms(3) legal(3) have "s = CHR '' '' # t" "move_uci r = Some m"
    by (simp_all add: legal_response_def)
  with ok legal(1,2) show ?thesis by blast
qed

text \<open>
  C7. Let the parser accept only words without whitespace and without a period, and
  let the move counter differ from 1 after two pushes. Then the part of the transcript
  that the loop of a game appends, split at whitespace, replays from the board the loop
  started with to the board it ended with: each token with a period is the move
  counter of the board at that point followed by a period, and the other tokens, in
  order, parse to the legal moves that were pushed. The text of a legal move in a
  response of \<^verbatim>\<open>get_legal_move\<close> is one space followed by the word the parser
  accepted.
\<close>

theorem transcript_round_trip:
  assumes "parser_contract orc" and "counter_contract orc"
  shows "(game_loop orc p1 p2 g = Inr g' \<longrightarrow>
            take (length (game_state g)) (game_state g') = game_state g
            \<and> replay orc (board g) (split_ws (drop (length (game_state g)) (game_state g')))
                = Some (board g'))
       \<and> (get_legal_move orc pl b gs player_one mx ps dg = Inr (r, ps', dg')
            \<and> move_san r = Some s \<longrightarrow>
            (\<exists>t m. s = CHR '' '' # t \<and> san_text_ok t \<and> move_uci r = Some m
               \<and> board_parse_san orc b t = Some m \<and> m \<in> set (board_legal_moves orc b)))"
proof (intro conjI impI)
  assume "game_loop orc p1 p2 g = Inr g'"
  with assms have "transcript_replays orc g g'" by (rule game_loop_transcript)
  then obtain portion where
    portion: "game_state g' = game_state g @ portion"
      "replay orc (board g) (split_ws portion) = Some (board g')"
    unfolding transcript_replays_def by blast
  from portion(1) show "take (length (game_state g)) (game_state g') = game_state g"
    by simp
  from portion show "replay orc (board g)
      (split_ws (drop (length (game_state g)) (game_state g'))) = Some (board g')"
    by simp
next
  assume "get_legal_move orc pl b gs player_one mx ps dg = Inr (r, ps', dg')
            \<and> move_san r = Some s"
  then have "get_legal_move orc pl b gs player_one mx ps dg = Inr (r, ps', dg')"
    and "move_san r = Some s"
    by simp_all
  with assms(1) show "\<exists>t m. s = CHR '' '' # t \<and> san_text_ok t \<and> move_uci r = Some m
               \<and> board_parse_san orc b t = Some m \<and> m \<in> set (board_legal_moves orc b)"
    by (rule get_legal_move_normalized)
qed

lemma toy_parser_contract: "parser_contract (toy_rules n)"
  by (auto simp: parser_contract_def toy_rules_def san_text_ok_def isspace_def
        split: if_splits)

lemma toy_counter_contract: "counter_contract (toy_rules n)"
  unfolding counter_contract_def
proof (intro allI)
  fix b :: "nat list" and m1 m2 :: nat
  have "0 \<le> int (length b) div 2"
    by (simp add: pos_imp_zdiv_nonneg_iff)
  then show "board_fullmove_number (toy_rules n)
      (board_push (toy_rules n) m2 (board_push (toy_rules n) m1 b)) \<noteq> 1"
    by (simp add: toy_rules_def)
qed

text \<open>
  A run of C7 on the small board, where a board is the list of the moves pushed: the
  game of four plies leaves the transcript ``1. a3 a4 2. a4 a3'', whose tokens replay
  to the board \<open>[0, 1, 1, 0]\<close>; and the text of a legal move in a response.
\<close>

theorem transcript_round_trip_witness:
  "parser_contract (toy_rules 4) \<and> counter_contract (toy_rules 4)
   \<and> game_loop (toy_rules 4) (scripted [Some ''a3'', Some ''a4''] model_config)
        (scripted [Some ''a4'', Some ''a3''] engine_config) opening_game = Inr drawn_final
   \<and> split_ws (drop (length (game_state opening_game)) (game_state drawn_final))
        = [''1.'', ''a3'', ''a4'', ''2.'', ''a4'', ''a3'']
   \<and> replay (toy_rules 4) (board opening_game) [''1.'', ''a3'', ''a4'', ''2.'', ''a4'', ''a3'']
        = Some [0, 1, 1, 0]
   \<and> board drawn_final = [0, 1, 1, 0]
   \<and> get_legal_move (toy_rules 4) (scripted [Some ''Qh5'', None, Some ''a3''] model_config)
        [] ''1.'' True 5 0 []
      = Inr (legal_response ''a3'' 0 2, 3, [diagnostic_entry ''1.'' None])
   \<and> move_san (legal_response ''a3'' (0::nat) 2) = Some '' a3''
   \<and> (\<exists>t m. '' a3'' = CHR '' '' # t \<and> san_text_ok t
          \<and> move_uci (legal_response ''a3'' (0::nat) 2) = Some m
          \<and> board_parse_san (toy_rules 4) [] t = Some m
          \<and> m \<in> set (board_legal_moves (toy_rules 4) []))"
proof -
  have run: "game_loop (toy_rules 4) (scripted [Some ''a3'', Some ''a4''] model_config)
      (scripted [Some ''a4'', Some ''a3''] engine_config) opening_game = Inr drawn_final"
    by (simp add: toy_simps game_loop.simps MAX_MOVES_def NANOGPT_def drawn_final_def)
  have tokens: "split_ws (drop (length (game_state opening_game)) (game_state drawn_final))
        = [''1.'', ''a3'', ''a4'', ''2.'', ''a4'', ''a3'']"
    by (simp add: drawn_final_def opening_game_def new_game_def split_ws_def isspace_def)
  have final: "board drawn_final = [0, 1, 1, 0]"
    by (simp add: drawn_final_def)
  have "replay (toy_rules 4) (board opening_game)
      (split_ws (drop (length (game_state opening_game)) (game_state drawn_final)))
      = Some (board drawn_final)"
    using transcript_round_trip [OF toy_parser_contract toy_counter_contract,
        where g = opening_game and g' = drawn_final
          and ?p1.0 = "scripted [Some ''a3'', Some ''a4''] model_config"
          and ?p2.0 = "scripted [Some ''a4'', Some ''a3''] engine_config", THEN conjunct1] run
    by simp
  with tokens final have replayed: "replay (toy_rules 4) (board opening_game)
      [''1.'', ''a3'', ''a4'', ''2.'', ''a4'', ''a3''] = Some [0, 1, 1, 0]"
    by simp
  have turn: "get_legal_move (toy_rules 4)
      (scripted [Some ''Qh5'', None, Some ''a3''] model_config) [] ''1.'' True 5 0 []
      = Inr (legal_response ''a3'' 0 2, 3, [diagnostic_entry ''1.'' None])"
    by (simp add: get_legal_move_def attempt_loop.simps scripted_def toy_rules_def
          model_config_def try_parse_san_def startswith_space_def temperature_def
          legal_response_def)
  have shown: "move_san (legal_response ''a3'' (0::nat) 2) = Some '' a3''"
    by (simp add: legal_response_def startswith_space_def)
  have normal: "\<exists>t m. '' a3'' = CHR '' '' # t \<and> san_text_ok t
          \<and> move_uci (legal_response ''a3'' (0::nat) 2) = Some m
          \<and> board_parse_san (toy_rules 4) [] t = Some m
          \<and> m \<in> set (board_legal_moves (toy_rules 4) [])"
    using transcript_round_trip [OF toy_parser_contract toy_counter_contract,
        where pl = "scripted [Some ''Qh5'', None, Some ''a3''] model_config" and b = "[]"
          and gs = "''1.''" and player_one = True and mx = 5 and ps = 0 and dg = "[]"
          and r = "legal_response ''a3'' 0 2" and ps' = 3
          and dg' = "[diagnostic_entry ''1.'' None]" and s = "'' a3''", THEN conjunct2]
      turn shown
    by simp
  from toy_parser_contract toy_counter_contract run tokens replayed final turn shown normal
  show ?thesis by (intro conjI)
qed

end
